theory Spec2Isabelle
  imports Complex_Main "HOL-Library.Monad_Syntax" "HOL-Library.Log_Nat"
begin

section \<open>JavaScript primitives used by the sources\<close>

text \<open>
  Strings are lists of 8-bit characters, read as the code points below 256. A JavaScript
  Number is a binary64 value. Block numbers and millisecond time stamps are integers below
  \<open>2\<^sup>5\<^sup>3\<close> in magnitude, on which \<^verbatim>\<open>+\<close>, \<^verbatim>\<open>-\<close> and the comparisons are exact: they are kept as
  \<open>int\<close>. Every other arithmetic result is rounded to the nearest binary64 value, ties to
  even (\<open>fl\<close> below); overflow to the infinities and the sign of zero are not modelled.
\<close>

text \<open>\<^verbatim>\<open>String.prototype.toLowerCase\<close> on code points below 256: A-Z and the Latin-1 capitals.\<close>

definition lowerChar :: "char \<Rightarrow> char" where
  "lowerChar c =
     (let n = (of_char c :: nat)
      in if (65 \<le> n \<and> n \<le> 90) \<or> (192 \<le> n \<and> n \<le> 222 \<and> n \<noteq> 215)
         then char_of (n + 32) else c)"

definition toLowerCase :: "string \<Rightarrow> string" where
  "toLowerCase s = map lowerChar s"

text \<open>\<^verbatim>\<open>lib/utils.ts\<close>: \<^verbatim>\<open>normalizeAddress = (addr) => addr.toLowerCase()\<close>.\<close>

definition normalizeAddress :: "string \<Rightarrow> string" where
  "normalizeAddress addr = toLowerCase addr"

text \<open>\<^verbatim>\<open>Math.round\<close>: the nearest integer, halves towards plus infinity.\<close>

definition js_round :: "real \<Rightarrow> int" where
  "js_round x = \<lfloor>x + 1 / 2\<rfloor>"

text \<open>
  Rounding to binary64. \<open>ilog2 x\<close> is the exponent of the binade of a positive \<open>x\<close>, the
  \<open>k\<close> with \<open>2\<^sup>k \<le> x < 2\<^sup>k\<^sup>+\<^sup>1\<close>; the unit in the last place of \<open>x\<close> is \<open>2\<close> to the power
  \<open>ulpExponent x\<close> (53 significant bits, exponents from \<open>-1022\<close>, subnormal numbers below);
  \<open>fl x\<close> is the multiple of that unit nearest to \<open>x\<close>, the even one of two equally near.
\<close>

definition ilog2 :: "real \<Rightarrow> int" where
  "ilog2 x = (if 1 \<le> x then bitlen \<lfloor>x\<rfloor> - 1 else - bitlen (\<lceil>1 / x\<rceil> - 1))"

definition roundHalfEven :: "real \<Rightarrow> int" where
  "roundHalfEven x =
     (let f = \<lfloor>x\<rfloor>; r = x - of_int f
      in if r < 1 / 2 then f else if 1 / 2 < r then f + 1 else if even f then f else f + 1)"

definition ulpExponent :: "real \<Rightarrow> int" where
  "ulpExponent x = max (ilog2 \<bar>x\<bar>) (- 1022) - 52"

definition fl :: "real \<Rightarrow> real" where
  "fl x =
     (if x = 0 then 0
      else let e = ulpExponent x
           in of_int (roundHalfEven (x / 2 powi e)) * 2 powi e)"

text \<open>
  \<^verbatim>\<open>BigInt(string)\<close> (StringToBigInt): surrounding white space is trimmed, the empty string is
  \<open>0\<close>, an unsigned literal may carry a \<^verbatim>\<open>0x\<close>, \<^verbatim>\<open>0o\<close> or \<^verbatim>\<open>0b\<close> prefix, a decimal literal
  may carry a sign; anything else throws a SyntaxError (\<open>None\<close>).
\<close>

definition isWhite :: "char \<Rightarrow> bool" where
  "isWhite c = (of_char c \<in> {9, 10, 11, 12, 13, 32, 160 :: nat})"

definition trimString :: "string \<Rightarrow> string" where
  "trimString s = rev (dropWhile isWhite (rev (dropWhile isWhite s)))"

definition digitVal :: "char \<Rightarrow> nat option" where
  "digitVal c =
     (let n = (of_char c :: nat)
      in if 48 \<le> n \<and> n \<le> 57 then Some (n - 48)
         else if 97 \<le> n \<and> n \<le> 122 then Some (n - 87)
         else if 65 \<le> n \<and> n \<le> 90 then Some (n - 55)
         else None)"

fun parseDigits :: "nat \<Rightarrow> string \<Rightarrow> nat \<Rightarrow> nat option" where
  "parseDigits radix [] acc = Some acc"
| "parseDigits radix (c # cs) acc =
     (case digitVal c of
        None \<Rightarrow> None
      | Some d \<Rightarrow> if d < radix then parseDigits radix cs (acc * radix + d) else None)"

definition parseRadix :: "nat \<Rightarrow> string \<Rightarrow> nat option" where
  "parseRadix radix s = (if s = [] then None else parseDigits radix s 0)"

definition BigInt :: "string \<Rightarrow> int option" where
  "BigInt str =
     (case trimString str of
        [] \<Rightarrow> Some 0
      | c # cs \<Rightarrow>
          if c = CHR ''0'' \<and> cs \<noteq> [] \<and> hd cs \<in> {CHR ''x'', CHR ''X''}
          then map_option int (parseRadix 16 (tl cs))
          else if c = CHR ''0'' \<and> cs \<noteq> [] \<and> hd cs \<in> {CHR ''o'', CHR ''O''}
          then map_option int (parseRadix 8 (tl cs))
          else if c = CHR ''0'' \<and> cs \<noteq> [] \<and> hd cs \<in> {CHR ''b'', CHR ''B''}
          then map_option int (parseRadix 2 (tl cs))
          else if c = CHR ''-'' then map_option (\<lambda>n. - int n) (parseRadix 10 cs)
          else if c = CHR ''+'' then map_option int (parseRadix 10 cs)
          else map_option int (parseRadix 10 (c # cs)))"

text \<open>\<^verbatim>\<open>BigInt.prototype.toString()\<close>: the decimal digits, with a minus sign when negative.\<close>

definition digitChar :: "nat \<Rightarrow> char" where
  "digitChar d = ''0123456789'' ! d"

function natToString :: "nat \<Rightarrow> string" where
  "natToString n =
     (if n < 10 then [digitChar n] else natToString (n div 10) @ [digitChar (n mod 10)])"
  by pat_completeness auto
termination
  by (relation "measure id") auto

declare natToString.simps [simp del]

definition bigintToString :: "int \<Rightarrow> string" where
  "bigintToString i =
     (if i < 0 then CHR ''-'' # natToString (nat (- i)) else natToString (nat i))"

definition isDecimalDigit :: "char \<Rightarrow> bool" where
  "isDecimalDigit c = (48 \<le> (of_char c :: nat) \<and> (of_char c :: nat) \<le> 57)"

section \<open>MongoDB collections\<close>

text \<open>
  A collection is the list of its documents in insertion order, or it does not answer
  (connection lost, query failed): every operation on it then fails with the driver's
  error, which the models wrap into \<^verbatim>\<open>DbQueryError\<close>.
\<close>

datatype 'a collection = Unavailable | Collection "'a list"

datatype DbQueryError = DbQueryError string

text \<open>
  \<^verbatim>\<open>insertMany(docs, { ordered: false })\<close> under a unique index on \<open>key\<close>: every document
  whose key is not yet in the collection is inserted, every other one is a duplicate-key
  write error (code 11000) and the remaining documents are still processed. The result
  is the collection afterwards and the number of write errors.
\<close>

fun insertMany_unordered :: "('a \<Rightarrow> string) \<Rightarrow> 'a list \<Rightarrow> 'a list \<Rightarrow> 'a list \<times> nat" where
  "insertMany_unordered key col [] = (col, 0)"
| "insertMany_unordered key col (d # ds) =
     (if key d \<in> set (map key col)
      then (case insertMany_unordered key col ds of (col', dups) \<Rightarrow> (col', Suc dups))
      else insertMany_unordered key (col @ [d]) ds)"

text \<open>
  Mongoose's \<^verbatim>\<open>Model.insertMany(docs, { ordered: false })\<close> validates every document against
  the schema first. A document that fails validation is dropped without an error; the
  documents that pass go to the driver's unordered \<^verbatim>\<open>insertMany\<close> above, and when none passes
  the call answers with the empty list and never reaches the database. A \<^verbatim>\<open>required\<close> string
  path fails validation when the string is empty.
\<close>

definition requiredString :: "string \<Rightarrow> bool" where
  "requiredString v = (length v > 0)"

text \<open>
  \<^verbatim>\<open>findOne(filter).sort({ k: 1 })\<close> and \<^verbatim>\<open>.sort({ k: -1 })\<close> on the filtered documents: a
  document with the least (greatest) sort key; among equal keys the earliest inserted.
\<close>

fun firstMin :: "('a \<Rightarrow> int) \<Rightarrow> 'a list \<Rightarrow> 'a option" where
  "firstMin k [] = None"
| "firstMin k (x # xs) =
     (case firstMin k xs of
        None \<Rightarrow> Some x
      | Some y \<Rightarrow> if k x \<le> k y then Some x else Some y)"

fun firstMax :: "('a \<Rightarrow> int) \<Rightarrow> 'a list \<Rightarrow> 'a option" where
  "firstMax k [] = None"
| "firstMax k (x # xs) =
     (case firstMax k xs of
        None \<Rightarrow> Some x
      | Some y \<Rightarrow> if k x \<ge> k y then Some x else Some y)"

text \<open>\<^verbatim>\<open>updateOne(filter, { $set: ... })\<close>: the first document that satisfies the filter.\<close>

fun updateOne :: "('a \<Rightarrow> bool) \<Rightarrow> ('a \<Rightarrow> 'a) \<Rightarrow> 'a list \<Rightarrow> 'a list" where
  "updateOne P f [] = []"
| "updateOne P f (x # xs) = (if P x then f x # xs else x # updateOne P f xs)"

section \<open>Block data and the anchor store (strategies/types.ts, models/system-tx.ts)\<close>

record SystemTx =
  tx_hash :: string
  tx_explorerHash :: string
  tx_from :: string
  tx_assetRecipient :: string
  tx_amountWei :: string
  tx_contractAddress :: "string option"

record BlockData =
  b_number :: int
  b_hash :: string
  b_timestamp :: int
  b_systemTxs :: "SystemTx list"

record SystemTransaction =
  st_hash :: string
  st_explorerHash :: string
  st_blockNumber :: int
  st_blockHash :: string
  st_blockTimestamp :: int
  st_from :: string
  st_assetRecipient :: string
  st_amountWei :: string
  st_contractAddress :: "string option"

record BlockAnchor =
  ba_blockNumber :: int
  ba_blockTimestamp :: int

text \<open>The documents \<^verbatim>\<open>storeBlocksSystemTxs\<close> builds for one block.\<close>

definition blockDocs :: "BlockData \<Rightarrow> SystemTransaction list" where
  "blockDocs block =
     map (\<lambda>tx. \<lparr> st_hash = tx_hash tx,
                 st_explorerHash = tx_explorerHash tx,
                 st_blockNumber = b_number block,
                 st_blockHash = b_hash block,
                 st_blockTimestamp = b_timestamp block,
                 st_from = toLowerCase (tx_from tx),
                 st_assetRecipient = toLowerCase (tx_assetRecipient tx),
                 st_amountWei = tx_amountWei tx,
                 st_contractAddress = map_option toLowerCase (tx_contractAddress tx) \<rparr>)
         (b_systemTxs block)"

text \<open>
  The schema of \<^verbatim>\<open>SystemTransaction\<close>: every path but \<^verbatim>\<open>contractAddress\<close> is required (the two
  numbers are always present in a document built by \<^verbatim>\<open>storeBlocksSystemTxs\<close>).
\<close>

definition validSystemTransaction :: "SystemTransaction \<Rightarrow> bool" where
  "validSystemTransaction d =
     (requiredString (st_hash d) \<and> requiredString (st_explorerHash d)
      \<and> requiredString (st_blockHash d) \<and> requiredString (st_from d)
      \<and> requiredString (st_assetRecipient d) \<and> requiredString (st_amountWei d))"

text \<open>
  \<^verbatim>\<open>storeBlocksSystemTxs\<close>: nothing to do without system transactions; otherwise one
  unordered \<^verbatim>\<open>insertMany\<close> of the documents that pass validation, under the unique index on
  \<^verbatim>\<open>hash\<close>, duplicate-key errors absorbed.
\<close>

definition storeBlocksSystemTxs ::
  "SystemTransaction collection \<Rightarrow> BlockData list \<Rightarrow> DbQueryError + SystemTransaction collection" where
  "storeBlocksSystemTxs col blocks =
     (let blocksWithTxs = filter (\<lambda>b. length (b_systemTxs b) > 0) blocks
      in if length blocksWithTxs = 0 then Inr col
         else let allDocs = concat (map blockDocs blocksWithTxs);
                  validDocs = filter validSystemTransaction allDocs
              in if length validDocs = 0 then Inr col
                 else case col of
                   Unavailable \<Rightarrow> Inl (DbQueryError ''insertMany'')
                 | Collection docs \<Rightarrow>
                     Inr (Collection (fst (insertMany_unordered st_hash docs validDocs))))"

definition toBlockAnchor :: "SystemTransaction \<Rightarrow> BlockAnchor" where
  "toBlockAnchor d = \<lparr> ba_blockNumber = st_blockNumber d, ba_blockTimestamp = st_blockTimestamp d \<rparr>"

definition findBracketingAnchors ::
  "SystemTransaction collection \<Rightarrow> int \<Rightarrow> DbQueryError + (BlockAnchor option \<times> BlockAnchor option)" where
  "findBracketingAnchors col targetTime =
     (case col of
        Unavailable \<Rightarrow> Inl (DbQueryError ''findBracketingAnchors'')
      | Collection docs \<Rightarrow>
          Inr (map_option toBlockAnchor
                 (firstMax st_blockTimestamp (filter (\<lambda>d. st_blockTimestamp d \<le> targetTime) docs)),
               map_option toBlockAnchor
                 (firstMin st_blockTimestamp (filter (\<lambda>d. st_blockTimestamp d > targetTime) docs))))"

record MatchParams =
  p_from :: string
  p_assetRecipient :: string
  p_amountWei :: string
  p_minTime :: int
  p_maxTime :: int

definition matchFilter :: "MatchParams \<Rightarrow> SystemTransaction \<Rightarrow> bool" where
  "matchFilter params d =
     (st_from d = toLowerCase (p_from params)
      \<and> st_assetRecipient d = toLowerCase (p_assetRecipient params)
      \<and> st_amountWei d = p_amountWei params
      \<and> st_blockTimestamp d \<ge> p_minTime params
      \<and> st_blockTimestamp d \<le> p_maxTime params)"

definition findMatchingTx ::
  "SystemTransaction collection \<Rightarrow> MatchParams \<Rightarrow> DbQueryError + SystemTransaction option" where
  "findMatchingTx col params =
     (case col of
        Unavailable \<Rightarrow> Inl (DbQueryError ''findOne'')
      | Collection docs \<Rightarrow> Inr (firstMin st_blockTimestamp (filter (matchFilter params) docs)))"

section \<open>Transfers (models/transfer.ts)\<close>

datatype TransferStatus = PENDING | MATCHED | FAILED

record Transfer =
  t_hypercoreHash :: string
  t_hypercoreTime :: int
  t_token :: string
  t_amount :: string
  t_usdcValue :: "string option"
  t_fee :: "string option"
  t_nativeTokenFee :: "string option"
  t_user :: string
  t_systemAddress :: string
  t_watchedAddress :: string
  t_contractAddress :: "string option"
  t_hyperevmHash :: "string option"
  t_hyperevmExplorerHash :: "string option"
  t_hyperevmBlock :: "int option"
  t_hyperevmBlockHash :: "string option"
  t_hyperevmTime :: "int option"
  t_status :: TransferStatus
  t_failReason :: "string option"

record NewTransfer =
  nt_hypercoreHash :: string
  nt_hypercoreTime :: int
  nt_token :: string
  nt_amount :: string
  nt_usdcValue :: "string option"
  nt_fee :: "string option"
  nt_nativeTokenFee :: "string option"
  nt_user :: string
  nt_systemAddress :: string
  nt_watchedAddress :: string
  nt_contractAddress :: "string option"

record BatchInsertResult =
  inserted :: nat
  duplicates :: nat

record EvmData =
  ev_hyperevmHash :: string
  ev_hyperevmExplorerHash :: string
  ev_hyperevmBlock :: int
  ev_hyperevmBlockHash :: string
  ev_hyperevmTime :: int
  ev_contractAddress :: "string option"

text \<open>The document \<^verbatim>\<open>insertTransfersBatch\<close> builds from a \<^verbatim>\<open>NewTransfer\<close>.\<close>

definition newTransferDoc :: "NewTransfer \<Rightarrow> Transfer" where
  "newTransferDoc t =
     \<lparr> t_hypercoreHash = nt_hypercoreHash t,
       t_hypercoreTime = nt_hypercoreTime t,
       t_token = nt_token t,
       t_amount = nt_amount t,
       t_usdcValue = nt_usdcValue t,
       t_fee = nt_fee t,
       t_nativeTokenFee = nt_nativeTokenFee t,
       t_user = nt_user t,
       t_systemAddress = nt_systemAddress t,
       t_watchedAddress = nt_watchedAddress t,
       t_contractAddress = nt_contractAddress t,
       t_hyperevmHash = None,
       t_hyperevmExplorerHash = None,
       t_hyperevmBlock = None,
       t_hyperevmBlockHash = None,
       t_hyperevmTime = None,
       t_status = PENDING,
       t_failReason = None \<rparr>"

text \<open>
  The schema of \<^verbatim>\<open>Transfer\<close>: \<^verbatim>\<open>hypercoreHash\<close>, \<^verbatim>\<open>token\<close>, \<^verbatim>\<open>amount\<close>, \<^verbatim>\<open>user\<close>, \<^verbatim>\<open>systemAddress\<close> and
  \<^verbatim>\<open>watchedAddress\<close> are required strings; \<^verbatim>\<open>hypercoreTime\<close> (a number) and \<^verbatim>\<open>status\<close> (one of
  the three values) are required and always present here; every other path defaults to null.
\<close>

definition validTransfer :: "Transfer \<Rightarrow> bool" where
  "validTransfer d =
     (requiredString (t_hypercoreHash d) \<and> requiredString (t_token d)
      \<and> requiredString (t_amount d) \<and> requiredString (t_user d)
      \<and> requiredString (t_systemAddress d) \<and> requiredString (t_watchedAddress d))"

definition validNewTransfer :: "NewTransfer \<Rightarrow> bool" where
  "validNewTransfer t = validTransfer (newTransferDoc t)"

text \<open>
  What \<^verbatim>\<open>TransferModel.insertMany(docs, { ordered: false })\<close> gives back: the documents that
  passed validation (their number) when the driver reports no write error, or a thrown
  error of which the code reads \<^verbatim>\<open>code\<close>, \<^verbatim>\<open>insertedCount\<close> and \<^verbatim>\<open>writeErrors[i].err.code\<close> (each
  possibly undefined). The only index on the collection that rejects a document is the
  unique one on \<^verbatim>\<open>hypercoreHash\<close>.
\<close>

record BulkError =
  be_code :: "int option"
  be_insertedCount :: "nat option"
  be_writeErrors :: "int option list option"

datatype InsertManyOutcome = InsertedDocs nat | Threw BulkError

definition TransferModel_insertMany ::
  "Transfer collection \<Rightarrow> Transfer list \<Rightarrow> InsertManyOutcome \<times> Transfer collection" where
  "TransferModel_insertMany col docs =
     (let validDocs = filter validTransfer docs
      in if length validDocs = 0 then (InsertedDocs 0, col)
         else case col of
            Unavailable \<Rightarrow>
              (Threw \<lparr> be_code = None, be_insertedCount = None, be_writeErrors = None \<rparr>, Unavailable)
          | Collection stored \<Rightarrow>
              (case insertMany_unordered t_hypercoreHash stored validDocs of
                 (stored', dups) \<Rightarrow>
                   if dups = 0 then (InsertedDocs (length validDocs), Collection stored')
                   else (Threw \<lparr> be_code = Some 11000,
                                  be_insertedCount = Some (length validDocs - dups),
                                  be_writeErrors = Some (replicate dups (Some 11000)) \<rparr>,
                         Collection stored')))"

definition insertTransfersBatch ::
  "Transfer collection \<Rightarrow> NewTransfer list \<Rightarrow> (DbQueryError + BatchInsertResult) \<times> Transfer collection" where
  "insertTransfersBatch col transfers =
     (if length transfers = 0 then (Inr \<lparr> inserted = 0, duplicates = 0 \<rparr>, col)
      else
        let docs = map newTransferDoc transfers
        in case TransferModel_insertMany col docs of
             (InsertedDocs n, col') \<Rightarrow> (Inr \<lparr> inserted = n, duplicates = 0 \<rparr>, col')
           | (Threw bulkError, col') \<Rightarrow>
               if be_code bulkError \<noteq> Some 11000 then (Inl (DbQueryError ''insertMany''), col')
               else
                 let insertedCount = (case be_insertedCount bulkError of Some n \<Rightarrow> n | None \<Rightarrow> 0);
                     writeErrors = (case be_writeErrors bulkError of Some es \<Rightarrow> es | None \<Rightarrow> []);
                     allDuplicates = list_all (\<lambda>e. e = Some 11000) writeErrors
                 in if \<not> allDuplicates then (Inl (DbQueryError ''insertMany''), col')
                    else (Inr \<lparr> inserted = insertedCount, duplicates = length writeErrors \<rparr>, col'))"


definition markTransferMatched ::
  "Transfer collection \<Rightarrow> string \<Rightarrow> EvmData \<Rightarrow> (DbQueryError + unit) \<times> Transfer collection" where
  "markTransferMatched col hypercoreHash evmData =
     (case col of
        Unavailable \<Rightarrow> (Inl (DbQueryError ''updateOne''), Unavailable)
      | Collection stored \<Rightarrow>
          (Inr (),
           Collection (updateOne (\<lambda>t. t_hypercoreHash t = hypercoreHash)
             (\<lambda>t. t \<lparr> t_hyperevmHash := Some (ev_hyperevmHash evmData),
                      t_hyperevmExplorerHash := Some (ev_hyperevmExplorerHash evmData),
                      t_hyperevmBlock := Some (ev_hyperevmBlock evmData),
                      t_hyperevmBlockHash := Some (ev_hyperevmBlockHash evmData),
                      t_hyperevmTime := Some (ev_hyperevmTime evmData),
                      t_contractAddress := ev_contractAddress evmData,
                      t_status := MATCHED,
                      t_failReason := None \<rparr>)
             stored)))"

definition markTransferFailed ::
  "Transfer collection \<Rightarrow> string \<Rightarrow> string \<Rightarrow> (DbQueryError + unit) \<times> Transfer collection" where
  "markTransferFailed col hypercoreHash reason =
     (case col of
        Unavailable \<Rightarrow> (Inl (DbQueryError ''updateOne''), Unavailable)
      | Collection stored \<Rightarrow>
          (Inr (),
           Collection (updateOne (\<lambda>t. t_hypercoreHash t = hypercoreHash)
             (\<lambda>t. t \<lparr> t_status := FAILED, t_failReason := Some reason \<rparr>)
             stored)))"



section \<open>The finder (services/finder.ts)\<close>

definition BATCH_SIZE :: int where
  "BATCH_SIZE = 5"

definition MAX_ROUNDS :: nat where
  "MAX_ROUNDS = 20"

definition DB_SEARCH_WINDOW_MS :: int where
  "DB_SEARCH_WINDOW_MS = 120000"

definition DEFAULT_MS_PER_BLOCK :: int where
  "DEFAULT_MS_PER_BLOCK = 1000"

record Anchor =
  a_block :: int
  a_time :: int

definition SEED_ANCHOR :: Anchor where
  "SEED_ANCHOR = \<lparr> a_block = 1, a_time = 1739849780000 \<rparr>"

record FindResult =
  r_hash :: string
  r_explorerHash :: string
  r_block :: int
  r_blockHash :: string
  r_blockTime :: int
  r_contractAddress :: "string option"
  r_blocksSearched :: nat
  r_rounds :: nat

text \<open>
  The ways \<^verbatim>\<open>findEvmHash\<close> fails: \<^verbatim>\<open>NotFoundError\<close> with the number of blocks searched, the
  fetcher's \<^verbatim>\<open>BlockFetchError\<close>, the \<^verbatim>\<open>Error\<close> of a failed asset-cache refresh, and an
  exception thrown inside the generator (\<^verbatim>\<open>parseUnits\<close> or \<^verbatim>\<open>BigInt\<close> on a malformed string).
\<close>

datatype find_error = NotFoundError nat | BlockFetchError string | Error string | Thrown string

definition interpolate :: "Anchor \<Rightarrow> Anchor \<Rightarrow> int \<Rightarrow> int" where
  "interpolate before after targetTime =
     (let timeDelta = a_time after - a_time before;
          blockDelta = a_block after - a_block before
      in if blockDelta = 0 \<or> timeDelta = 0 then a_block before
         else
           let msPerBlock = fl (of_int timeDelta / of_int blockDelta);
               targetOffset = targetTime - a_time before;
               blockOffset = js_round (fl (of_int targetOffset / msPerBlock))
           in max 1 (a_block before + blockOffset))"

definition extrapolate :: "Anchor \<Rightarrow> int \<Rightarrow> int" where
  "extrapolate anchor targetTime =
     (let timeDiff = targetTime - a_time anchor;
          blockDiff = js_round (fl (of_int timeDiff / of_int DEFAULT_MS_PER_BLOCK))
      in max 1 (a_block anchor + blockDiff))"

text \<open>\<^verbatim>\<open>matchesTx\<close>; \<open>Inl\<close> is the SyntaxError of \<^verbatim>\<open>BigInt(tx.amountWei)\<close>.\<close>

definition matchesTx :: "SystemTx \<Rightarrow> string \<Rightarrow> string \<Rightarrow> int \<Rightarrow> string + bool" where
  "matchesTx tx usr systemAddr expectedAmount =
     (if toLowerCase (tx_from tx) \<noteq> systemAddr then Inr False
      else if toLowerCase (tx_assetRecipient tx) \<noteq> usr then Inr False
      else case BigInt (tx_amountWei tx) of
             None \<Rightarrow> Inl ''SyntaxError''
           | Some amountWei \<Rightarrow> Inr (amountWei = expectedAmount))"

fun searchTxs ::
  "BlockData \<Rightarrow> SystemTx list \<Rightarrow> string \<Rightarrow> string \<Rightarrow> int \<Rightarrow> string + (BlockData \<times> SystemTx) option" where
  "searchTxs block [] usr systemAddr expectedAmount = Inr None"
| "searchTxs block (tx # txs) usr systemAddr expectedAmount =
     (case matchesTx tx usr systemAddr expectedAmount of
        Inl e \<Rightarrow> Inl e
      | Inr m \<Rightarrow> if m then Inr (Some (block, tx))
                 else searchTxs block txs usr systemAddr expectedAmount)"

fun searchBlocks ::
  "BlockData list \<Rightarrow> string \<Rightarrow> string \<Rightarrow> int \<Rightarrow> string + (BlockData \<times> SystemTx) option" where
  "searchBlocks [] usr systemAddr expectedAmount = Inr None"
| "searchBlocks (block # blocks) usr systemAddr expectedAmount =
     (case searchTxs block (b_systemTxs block) usr systemAddr expectedAmount of
        Inl e \<Rightarrow> Inl e
      | Inr (Some found) \<Rightarrow> Inr (Some found)
      | Inr None \<Rightarrow> searchBlocks blocks usr systemAddr expectedAmount)"

text \<open>What one call of \<^verbatim>\<open>findEvmHash\<close> works with, fixed before its loop starts.\<close>

record search =
  s_fetchBlocks :: "nat \<Rightarrow> int list \<Rightarrow> string + BlockData list"
  s_user :: string
  s_systemAddress :: string
  s_expectedAmount :: int
  s_targetTime :: int

text \<open>The estimate of a round: interpolation clamped to the bounds, or extrapolation.\<close>

definition roundEstimate :: "Anchor \<Rightarrow> Anchor option \<Rightarrow> int \<Rightarrow> int" where
  "roundEstimate lowerBound upperBound targetTime =
     (case upperBound of
        Some ub \<Rightarrow> max (a_block lowerBound) (min (a_block ub) (interpolate lowerBound ub targetTime))
      | None \<Rightarrow> extrapolate lowerBound targetTime)"

definition roundBatchStart :: "Anchor \<Rightarrow> Anchor option \<Rightarrow> int \<Rightarrow> int" where
  "roundBatchStart lowerBound upperBound estimate =
     (let halfBatch = BATCH_SIZE div 2;
          batchStart = max 1 (estimate - halfBatch);
          batchStart =
            (case upperBound of
               Some ub \<Rightarrow>
                 if batchStart + BATCH_SIZE > a_block ub
                 then max (a_block lowerBound) (a_block ub - BATCH_SIZE + 1)
                 else batchStart
             | None \<Rightarrow> batchStart)
      in max (a_block lowerBound) batchStart)"

definition roundBlockNumbers :: "Anchor option \<Rightarrow> int \<Rightarrow> int list" where
  "roundBlockNumbers upperBound batchStart =
     takeWhile (\<lambda>blockNum. case upperBound of Some ub \<Rightarrow> \<not> blockNum > a_block ub | None \<Rightarrow> True)
       (map (\<lambda>i. batchStart + int i) [0..<nat BATCH_SIZE])"

text \<open>The candidates for new bounds among the fetched blocks.\<close>

definition newLowerBlock :: "int \<Rightarrow> BlockData list \<Rightarrow> BlockData option" where
  "newLowerBlock targetTime blocks =
     foldl (\<lambda>cur block.
              if b_timestamp block \<le> targetTime
              then (case cur of
                      None \<Rightarrow> Some block
                    | Some l \<Rightarrow> if b_number block > b_number l then Some block else cur)
              else cur)
       None blocks"

definition newUpperBlock :: "int \<Rightarrow> BlockData list \<Rightarrow> BlockData option" where
  "newUpperBlock targetTime blocks =
     foldl (\<lambda>cur block.
              if b_timestamp block > targetTime
              then (case cur of
                      None \<Rightarrow> Some block
                    | Some u \<Rightarrow> if b_number block < b_number u then Some block else cur)
              else cur)
       None blocks"

definition tightenLower :: "Anchor \<Rightarrow> BlockData option \<Rightarrow> Anchor" where
  "tightenLower lowerBound cand =
     (case cand of
        Some nb \<Rightarrow>
          if b_number nb > a_block lowerBound
          then \<lparr> a_block = b_number nb, a_time = b_timestamp nb \<rparr>
          else lowerBound
      | None \<Rightarrow> lowerBound)"

definition tightenUpper :: "Anchor option \<Rightarrow> BlockData option \<Rightarrow> Anchor option" where
  "tightenUpper upperBound cand =
     (case cand of
        Some nb \<Rightarrow>
          if (case upperBound of None \<Rightarrow> True | Some ub \<Rightarrow> b_number nb < a_block ub)
          then Some \<lparr> a_block = b_number nb, a_time = b_timestamp nb \<rparr>
          else upperBound
      | None \<Rightarrow> upperBound)"

definition converged :: "Anchor \<Rightarrow> Anchor option \<Rightarrow> bool" where
  "converged lowerBound upperBound =
     (case upperBound of Some ub \<Rightarrow> a_block ub \<le> a_block lowerBound + 1 | None \<Rightarrow> False)"

text \<open>
  What the debug line of a round that fetches records (\<^verbatim>\<open>Round n: estimate=..., fetching
  ..., bounds=[...]\<close>): one entry per call of the fetcher, in order.
\<close>

record RoundLog =
  l_round :: nat
  l_estimate :: int
  l_blockNumbers :: "int list"
  l_lowerBound :: Anchor
  l_upperBound :: "Anchor option"

text \<open>
  How one pass through the body of the \<^verbatim>\<open>for\<close> loop ends: with the result of
  \<^verbatim>\<open>findEvmHash\<close> (a \<^verbatim>\<open>return\<close>, a failure, or a \<^verbatim>\<open>break\<close>, after which the
  \<^verbatim>\<open>NotFoundError\<close> behind the loop is raised), or with the bounds and the count of blocks
  searched for the next round (\<^verbatim>\<open>continue\<close>, or the end of the body).
\<close>

datatype round_step = Done "find_error + FindResult" | Continue Anchor "Anchor option" nat

definition searchRound ::
  "search \<Rightarrow> nat \<Rightarrow> Anchor \<Rightarrow> Anchor option \<Rightarrow> nat \<Rightarrow> round_step \<times> RoundLog list" where
  "searchRound s rnd lowerBound upperBound blocksSearched =
     (let estimate = roundEstimate lowerBound upperBound (s_targetTime s);
          batchStart = roundBatchStart lowerBound upperBound estimate;
          blockNumbers = roundBlockNumbers upperBound batchStart
      in if length blockNumbers = 0 then (Done (Inl (NotFoundError blocksSearched)), [])
         else
           let entry = \<lparr> l_round = rnd, l_estimate = estimate, l_blockNumbers = blockNumbers,
                         l_lowerBound = lowerBound, l_upperBound = upperBound \<rparr>
           in case s_fetchBlocks s rnd blockNumbers of
                Inl msg \<Rightarrow> (Done (Inl (BlockFetchError msg)), [entry])
              | Inr blocks \<Rightarrow>
                  let searched = blocksSearched + length blocks
                  in if length blocks = 0 then (Continue lowerBound upperBound searched, [entry])
                     else
                       case searchBlocks blocks (s_user s) (s_systemAddress s) (s_expectedAmount s) of
                         Inl e \<Rightarrow> (Done (Inl (Thrown e)), [entry])
                       | Inr (Some (block, tx)) \<Rightarrow>
                           (Done (Inr \<lparr> r_hash = tx_hash tx,
                                        r_explorerHash = tx_explorerHash tx,
                                        r_block = b_number block,
                                        r_blockHash = b_hash block,
                                        r_blockTime = b_timestamp block,
                                        r_contractAddress = tx_contractAddress tx,
                                        r_blocksSearched = searched,
                                        r_rounds = rnd + 1 \<rparr>),
                            [entry])
                       | Inr None \<Rightarrow>
                           let lowerBound' = tightenLower lowerBound (newLowerBlock (s_targetTime s) blocks);
                               upperBound' = tightenUpper upperBound (newUpperBlock (s_targetTime s) blocks)
                           in if converged lowerBound' upperBound'
                              then (Done (Inl (NotFoundError searched)), [entry])
                              else (Continue lowerBound' upperBound' searched, [entry]))"

text \<open>
  The \<^verbatim>\<open>for (let round = 0; round < MAX_ROUNDS; round++)\<close> loop of \<^verbatim>\<open>findEvmHash\<close> and the
  \<^verbatim>\<open>NotFoundError\<close> after it, with the log of the rounds that fetched. The fetcher is given
  the round, since two calls with the same block numbers need not answer alike.
\<close>

function searchLoop ::
  "search \<Rightarrow> nat \<Rightarrow> Anchor \<Rightarrow> Anchor option \<Rightarrow> nat \<Rightarrow> (find_error + FindResult) \<times> RoundLog list" where
  "searchLoop s rnd lowerBound upperBound blocksSearched =
     (if \<not> rnd < MAX_ROUNDS then (Inl (NotFoundError blocksSearched), [])
      else
        case searchRound s rnd lowerBound upperBound blocksSearched of
          (Done res, entries) \<Rightarrow> (res, entries)
        | (Continue lowerBound' upperBound' searched, entries) \<Rightarrow>
            (case searchLoop s (Suc rnd) lowerBound' upperBound' searched of
               (res, later) \<Rightarrow> (res, entries @ later)))"
  by pat_completeness auto
termination
  by (relation "measure (\<lambda>(s, rnd, lowerBound, upperBound, blocksSearched). MAX_ROUNDS - rnd)") auto

declare searchLoop.simps [simp del]

text \<open>
  The surroundings of one call: the asset cache (system address to \<^verbatim>\<open>evmDecimals\<close>) and
  what \<^verbatim>\<open>refreshAssetCache\<close> would yield (its error, or the repopulated cache), viem's
  \<^verbatim>\<open>parseUnits\<close> (\<open>None\<close>: it throws), the \<^verbatim>\<open>system_txs\<close> collection as the cache probe and as
  the anchor query find it, and the fetcher.
\<close>

record finder_env =
  e_assets :: "string \<Rightarrow> int option"
  e_refreshAssetCache :: "string + (string \<Rightarrow> int option)"
  e_parseUnits :: "string \<Rightarrow> int \<Rightarrow> int option"
  e_cacheDb :: "SystemTransaction collection"
  e_anchorDb :: "SystemTransaction collection"
  e_fetchBlocks :: "nat \<Rightarrow> int list \<Rightarrow> string + BlockData list"

definition getAssetBySystemAddress :: "(string \<Rightarrow> int option) \<Rightarrow> string \<Rightarrow> int option" where
  "getAssetBySystemAddress bySystemAddress systemAddr = bySystemAddress (normalizeAddress systemAddr)"

text \<open>
  The head of \<^verbatim>\<open>findEvmHash\<close>: look the asset up, refresh the cache once when it is unknown,
  and default to 18 decimals.
\<close>

definition resolveEvmDecimals :: "finder_env \<Rightarrow> string \<Rightarrow> string + int" where
  "resolveEvmDecimals env systemAddr =
     (case getAssetBySystemAddress (e_assets env) systemAddr of
        Some evmDecimals \<Rightarrow> Inr evmDecimals
      | None \<Rightarrow>
          (case e_refreshAssetCache env of
             Inl msg \<Rightarrow> Inl msg
           | Inr refreshed \<Rightarrow>
               Inr (case getAssetBySystemAddress refreshed systemAddr of
                      Some evmDecimals \<Rightarrow> evmDecimals
                    | None \<Rightarrow> 18)))"

definition parseAmount :: "finder_env \<Rightarrow> string \<Rightarrow> int \<Rightarrow> int option" where
  "parseAmount env amount decimals = e_parseUnits env amount decimals"

definition toAnchor :: "BlockAnchor \<Rightarrow> Anchor" where
  "toAnchor ba = \<lparr> a_block = ba_blockNumber ba, a_time = ba_blockTimestamp ba \<rparr>"

definition findEvmHash :: "finder_env \<Rightarrow> Transfer \<Rightarrow> (find_error + FindResult) \<times> RoundLog list" where
  "findEvmHash env transfer =
     (let targetTime = t_hypercoreTime transfer;
          usr = normalizeAddress (t_user transfer);
          systemAddr = normalizeAddress (t_systemAddress transfer)
      in case resolveEvmDecimals env systemAddr of
           Inl msg \<Rightarrow> (Inl (Error msg), [])
         | Inr evmDecimals \<Rightarrow>
             (case parseAmount env (t_amount transfer) evmDecimals of
                None \<Rightarrow> (Inl (Thrown ''InvalidDecimalNumberError''), [])
              | Some expectedAmount \<Rightarrow>
                  let dbMatch =
                        (case findMatchingTx (e_cacheDb env)
                                \<lparr> p_from = systemAddr,
                                  p_assetRecipient = usr,
                                  p_amountWei = bigintToString expectedAmount,
                                  p_minTime = targetTime - 5000,
                                  p_maxTime = targetTime + DB_SEARCH_WINDOW_MS \<rparr> of
                           Inl err \<Rightarrow> None
                         | Inr found \<Rightarrow> found)
                  in case dbMatch of
                       Some d \<Rightarrow>
                         (Inr \<lparr> r_hash = st_hash d,
                                r_explorerHash = st_explorerHash d,
                                r_block = st_blockNumber d,
                                r_blockHash = st_blockHash d,
                                r_blockTime = st_blockTimestamp d,
                                r_contractAddress = st_contractAddress d,
                                r_blocksSearched = 0,
                                r_rounds = 0 \<rparr>,
                          [])
                     | None \<Rightarrow>
                         let initialAnchors =
                               (case findBracketingAnchors (e_anchorDb env) targetTime of
                                  Inl err \<Rightarrow> (None, None)
                                | Inr anchors \<Rightarrow> anchors);
                             lowerBound =
                               (case fst initialAnchors of
                                  Some before \<Rightarrow> toAnchor before
                                | None \<Rightarrow> SEED_ANCHOR);
                             upperBound = map_option toAnchor (snd initialAnchors)
                         in searchLoop
                              \<lparr> s_fetchBlocks = e_fetchBlocks env,
                                s_user = usr,
                                s_systemAddress = systemAddr,
                                s_expectedAmount = expectedAmount,
                                s_targetTime = targetTime \<rparr>
                              0 lowerBound upperBound 0))"

text \<open>
  The match predicate between a system transaction (its sender, its asset recipient and
  its amount in smallest units) and a transfer, with addresses compared up to letter case,
  and what it means for a result to point at a stored anchor or at a fetched transaction.
\<close>

definition matchesUpToCase :: "string \<Rightarrow> string \<Rightarrow> string \<Rightarrow> Transfer \<Rightarrow> int \<Rightarrow> bool" where
  "matchesUpToCase sender recipient amountSmallestUnit transfer expectedAmount =
     (toLowerCase sender = toLowerCase (t_systemAddress transfer)
      \<and> toLowerCase recipient = toLowerCase (t_user transfer)
      \<and> BigInt amountSmallestUnit = Some expectedAmount)"

definition resultOfDoc :: "FindResult \<Rightarrow> SystemTransaction \<Rightarrow> bool" where
  "resultOfDoc res d =
     (r_hash res = st_hash d \<and> r_explorerHash res = st_explorerHash d
      \<and> r_block res = st_blockNumber d \<and> r_blockHash res = st_blockHash d
      \<and> r_blockTime res = st_blockTimestamp d \<and> r_contractAddress res = st_contractAddress d)"

definition resultOfTx :: "FindResult \<Rightarrow> BlockData \<Rightarrow> SystemTx \<Rightarrow> bool" where
  "resultOfTx res block tx =
     (r_hash res = tx_hash tx \<and> r_explorerHash res = tx_explorerHash tx
      \<and> r_block res = b_number block \<and> r_blockHash res = b_hash block
      \<and> r_blockTime res = b_timestamp block \<and> r_contractAddress res = tx_contractAddress tx)"

text \<open>A fetcher that always answers, with blocks that hold no match for the search.\<close>

definition answersWithoutMatch :: "search \<Rightarrow> bool" where
  "answersWithoutMatch s =
     (\<forall>rnd blockNumbers. \<exists>blocks.
        s_fetchBlocks s rnd blockNumbers = Inr blocks
        \<and> searchBlocks blocks (s_user s) (s_systemAddress s) (s_expectedAmount s) = Inr None)"

text \<open>
  What the bounds of a search satisfy: the lower anchor is the seed or lies at or before
  the target time, the upper anchor lies after it.
\<close>

definition boundsInv :: "int \<Rightarrow> Anchor \<Rightarrow> Anchor option \<Rightarrow> bool" where
  "boundsInv targetTime lowerBound upperBound =
     ((lowerBound = SEED_ANCHOR \<or> a_time lowerBound \<le> targetTime)
      \<and> (case upperBound of None \<Rightarrow> True | Some ub \<Rightarrow> a_time ub > targetTime))"

text \<open>A stored anchor whose address fields are in lower case.\<close>

definition lowercasedDoc :: "SystemTransaction \<Rightarrow> bool" where
  "lowercasedDoc d =
     (toLowerCase (st_from d) = st_from d
      \<and> toLowerCase (st_assetRecipient d) = st_assetRecipient d
      \<and> (case st_contractAddress d of None \<Rightarrow> True | Some c \<Rightarrow> toLowerCase c = c))"

section \<open>The matcher's producer (services/evm-matcher.ts)\<close>





text \<open>The two \<^verbatim>\<open>BlockFetcherService\<close> values the producer chooses from.\<close>

datatype fetcher = S3Fetcher | RpcFetcher






section \<open>Shared backoff (core-indexer, makeBackoff)\<close>











section \<open>Concrete data for the examples\<close>

definition exampleNewTransfer :: NewTransfer where
  "exampleNewTransfer =
     \<lparr> nt_hypercoreHash = ''0xc0de01'',
       nt_hypercoreTime = 1700000001000,
       nt_token = ''HYPE'',
       nt_amount = ''100.5'',
       nt_usdcValue = None,
       nt_fee = None,
       nt_nativeTokenFee = None,
       nt_user = ''0x00000000000000000000000000000000000000aa'',
       nt_systemAddress = ''0x2222222222222222222222222222222222222222'',
       nt_watchedAddress = ''0x00000000000000000000000000000000000000bb'',
       nt_contractAddress = None \<rparr>"


definition exampleEvmData :: EvmData where
  "exampleEvmData =
     \<lparr> ev_hyperevmHash = ''0xe001'',
       ev_hyperevmExplorerHash = ''0xe002'',
       ev_hyperevmBlock = 1500,
       ev_hyperevmBlockHash = ''0xb1500'',
       ev_hyperevmTime = 1700000001500,
       ev_contractAddress = None \<rparr>"

text \<open>A stored transfer that the matcher has matched.\<close>

definition matchedTransfer :: Transfer where
  "matchedTransfer =
     (newTransferDoc exampleNewTransfer)
       \<lparr> t_hyperevmHash := Some ''0xe001'',
         t_hyperevmExplorerHash := Some ''0xe002'',
         t_hyperevmBlock := Some 1500,
         t_hyperevmBlockHash := Some ''0xb1500'',
         t_hyperevmTime := Some 1700000001500,
         t_status := MATCHED \<rparr>"

definition examplePending :: Transfer where
  "examplePending = newTransferDoc exampleNewTransfer"


text \<open>
  Scenario S1: a stored anchor at block time \<open>T = 1700000000000\<close> for 100.5 of the native
  token to a user, and the transfer at core time \<open>T + 1000\<close>; the asset cache knows the
  native token (18 decimals), and \<^verbatim>\<open>parseUnits("100.5", 18)\<close> is \<open>100500000000000000000\<close>.
\<close>

definition hypeSystemAddress :: string where
  "hypeSystemAddress = ''0x2222222222222222222222222222222222222222''"

definition cachedAnchor :: SystemTransaction where
  "cachedAnchor =
     \<lparr> st_hash = ''0xa001'',
       st_explorerHash = ''0xe001'',
       st_blockNumber = 1500,
       st_blockHash = ''0xb1500'',
       st_blockTimestamp = 1700000000000,
       st_from = ''0x2222222222222222222222222222222222222222'',
       st_assetRecipient = ''0x00000000000000000000000000000000000000aa'',
       st_amountWei = ''100500000000000000000'',
       st_contractAddress = None \<rparr>"

definition exampleEnv :: finder_env where
  "exampleEnv =
     \<lparr> e_assets = (\<lambda>a. if a = hypeSystemAddress then Some 18 else None),
       e_refreshAssetCache = Inl ''spotMeta API error: 503'',
       e_parseUnits =
         (\<lambda>amount decimals.
            if amount = ''100.5'' \<and> decimals = 18 then Some 100500000000000000000 else None),
       e_cacheDb = Collection [cachedAnchor],
       e_anchorDb = Collection [cachedAnchor],
       e_fetchBlocks = (\<lambda>rnd blockNumbers. Inl ''HTTP 503'') \<rparr>"

definition exampleTransfer :: Transfer where
  "exampleTransfer = newTransferDoc exampleNewTransfer"

text \<open>The same transfer with its recipient in checksum case.\<close>

definition checksumCaseTransfer :: Transfer where
  "checksumCaseTransfer =
     exampleTransfer \<lparr> t_user := ''0x00000000000000000000000000000000000000Aa'' \<rparr>"

text \<open>
  Scenario S2: anchors at blocks 1000 and 2000, one block per second between them, and the
  transfer's transaction in block 1500.
\<close>

definition anchorAt :: "string \<Rightarrow> int \<Rightarrow> int \<Rightarrow> SystemTransaction" where
  "anchorAt h n t =
     \<lparr> st_hash = h, st_explorerHash = h, st_blockNumber = n, st_blockHash = ''0xb'',
       st_blockTimestamp = t,
       st_from = ''0x0000000000000000000000000000000000000000'',
       st_assetRecipient = ''0x0000000000000000000000000000000000000000'',
       st_amountWei = ''0'', st_contractAddress = None \<rparr>"

definition s2Tx :: SystemTx where
  "s2Tx =
     \<lparr> tx_hash = ''0xa002'', tx_explorerHash = ''0xe002'',
       tx_from = ''0x2222222222222222222222222222222222222222'',
       tx_assetRecipient = ''0x00000000000000000000000000000000000000aa'',
       tx_amountWei = ''100500000000000000000'', tx_contractAddress = None \<rparr>"

definition s2Fetcher :: "nat \<Rightarrow> int list \<Rightarrow> string + BlockData list" where
  "s2Fetcher rnd blockNumbers =
     Inr (map (\<lambda>n. \<lparr> b_number = n, b_hash = ''0xb'',
                      b_timestamp = 1700000000000 + (n - 1000) * 1000,
                      b_systemTxs = (if n = 1500 then [s2Tx] else []) \<rparr>) blockNumbers)"

definition s2Env :: finder_env where
  "s2Env =
     exampleEnv \<lparr> e_cacheDb := Collection [anchorAt ''0xa1000'' 1000 1700000000000,
                                            anchorAt ''0xa2000'' 2000 1700001000000],
                  e_anchorDb := Collection [anchorAt ''0xa1000'' 1000 1700000000000,
                                             anchorAt ''0xa2000'' 2000 1700001000000],
                  e_fetchBlocks := s2Fetcher \<rparr>"

definition s2Transfer :: Transfer where
  "s2Transfer = exampleTransfer \<lparr> t_hypercoreTime := 1700000500000 \<rparr>"

text \<open>A chain without system transactions, and a search between two adjacent anchors.\<close>

definition emptyChain :: "nat \<Rightarrow> int list \<Rightarrow> string + BlockData list" where
  "emptyChain rnd blockNumbers =
     Inr (map (\<lambda>n. \<lparr> b_number = n, b_hash = ''0xb'',
                      b_timestamp = 1700000000000 + (n - 1000) * 1000,
                      b_systemTxs = [] \<rparr>) blockNumbers)"

definition adjacentSearch :: search where
  "adjacentSearch =
     \<lparr> s_fetchBlocks = emptyChain,
       s_user = ''0x00000000000000000000000000000000000000aa'',
       s_systemAddress = ''0x2222222222222222222222222222222222222222'',
       s_expectedAmount = 100500000000000000000,
       s_targetTime = 1700000000500 \<rparr>"





text \<open>A fetched block whose transaction carries addresses in mixed case.\<close>

definition checksumCaseBlock :: BlockData where
  "checksumCaseBlock =
     \<lparr> b_number = 1500, b_hash = ''0xb1500'', b_timestamp = 1700000500000,
       b_systemTxs =
         [\<lparr> tx_hash = ''0xa003'', tx_explorerHash = ''0xe003'',
            tx_from = ''0x20000000000000000000000000000000000000DE'',
            tx_assetRecipient = ''0x00000000000000000000000000000000000000Aa'',
            tx_amountWei = ''10827401816'',
            tx_contractAddress = Some ''0x00000000000000000000000000000000000000cC'' \<rparr>] \<rparr>"

section \<open>Properties of the JavaScript primitives\<close>

lemma lowerChar_idem: "lowerChar (lowerChar c) = lowerChar c"
  by (auto simp: lowerChar_def Let_def)

lemma toLowerCase_idem: "toLowerCase (toLowerCase s) = toLowerCase s"
  by (simp add: toLowerCase_def lowerChar_idem)

lemma toLowerCase_normalizeAddress [simp]: "toLowerCase (normalizeAddress a) = toLowerCase a"
  by (simp add: normalizeAddress_def toLowerCase_idem)

lemmas js_eval =
  toLowerCase_def lowerChar_def normalizeAddress_def char_of_def bit_Suc_0_iff
  BigInt_def trimString_def isWhite_def parseRadix_def digitVal_def
  bigintToString_def natToString.simps digitChar_def js_round_def

lemma of_char_digitChar: "d < 10 \<Longrightarrow> of_char (digitChar d) = 48 + d"
proof -
  assume "d < 10"
  then have "d \<in> {0,1,2,3,4,5,6,7,8,9}" by auto
  then show ?thesis by (auto simp: digitChar_def)
qed

lemma digitVal_digitChar: "d < 10 \<Longrightarrow> digitVal (digitChar d) = Some d"
  by (simp add: digitVal_def of_char_digitChar)

lemma parseDigits_snoc:
  "d < 10 \<Longrightarrow> parseDigits 10 (xs @ [digitChar d]) acc
     = map_option (\<lambda>v. v * 10 + d) (parseDigits 10 xs acc)"
  by (induction xs arbitrary: acc) (auto simp: digitVal_digitChar split: option.splits)

lemma parseDigits_natToString: "parseDigits 10 (natToString n) 0 = Some n"
proof (induction n rule: natToString.induct)
  case (1 n)
  show ?case
  proof (cases "n < 10")
    case True
    then show ?thesis by (simp add: natToString.simps [of n] digitVal_digitChar)
  next
    case False
    then have "parseDigits 10 (natToString (n div 10)) 0 = Some (n div 10)" by (rule "1.IH")
    with False show ?thesis
      by (simp add: natToString.simps [of n] parseDigits_snoc)
  qed
qed

lemma isDecimalDigit_digitChar: "d < 10 \<Longrightarrow> isDecimalDigit (digitChar d)"
  by (simp add: isDecimalDigit_def of_char_digitChar)

lemma natToString_digits: "c \<in> set (natToString n) \<Longrightarrow> isDecimalDigit c"
proof (induction n rule: natToString.induct)
  case (1 n)
  show ?case
  proof (cases "n < 10")
    case True
    with "1.prems" show ?thesis
      by (auto simp: natToString.simps [of n] isDecimalDigit_digitChar)
  next
    case False
    with "1.prems" "1.IH" show ?thesis
      by (auto simp: natToString.simps [of n] isDecimalDigit_digitChar)
  qed
qed

lemma natToString_nonempty: "natToString n \<noteq> []"
  by (subst natToString.simps) simp

lemma isDecimalDigit_not_white: "isDecimalDigit c \<Longrightarrow> \<not> isWhite c"
  by (auto simp: isDecimalDigit_def isWhite_def)

lemma isDecimalDigit_not_prefix:
  "isDecimalDigit c \<Longrightarrow>
     c \<noteq> CHR ''x'' \<and> c \<noteq> CHR ''X'' \<and> c \<noteq> CHR ''o'' \<and> c \<noteq> CHR ''O'' \<and>
     c \<noteq> CHR ''b'' \<and> c \<noteq> CHR ''B'' \<and> c \<noteq> CHR ''-'' \<and> c \<noteq> CHR ''+''"
  by (auto simp: isDecimalDigit_def)

lemma dropWhile_id: "xs \<noteq> [] \<Longrightarrow> \<not> P (hd xs) \<Longrightarrow> dropWhile P xs = xs"
  by (cases xs) auto

lemma trimString_id:
  assumes "s \<noteq> []" "\<not> isWhite (hd s)" "\<not> isWhite (last s)"
  shows "trimString s = s"
proof -
  have "dropWhile isWhite s = s" using assms by (simp add: dropWhile_id)
  moreover have "dropWhile isWhite (rev s) = rev s"
    using assms by (intro dropWhile_id) (simp_all add: hd_rev)
  ultimately show ?thesis by (simp add: trimString_def)
qed

lemma trimString_natToString: "trimString (natToString n) = natToString n"
proof (rule trimString_id)
  show ne: "natToString n \<noteq> []" by (rule natToString_nonempty)
  have "hd (natToString n) \<in> set (natToString n)" using ne by simp
  then show "\<not> isWhite (hd (natToString n))"
    using natToString_digits isDecimalDigit_not_white by blast
  have "last (natToString n) \<in> set (natToString n)" using ne by simp
  then show "\<not> isWhite (last (natToString n))"
    using natToString_digits isDecimalDigit_not_white by blast
qed

lemma BigInt_natToString: "BigInt (natToString n) = Some (int n)"
proof -
  obtain c cs where s: "natToString n = c # cs"
    using natToString_nonempty [of n] by (cases "natToString n") auto
  have "isDecimalDigit c" using natToString_digits [of c n] s by simp
  then have c: "c \<noteq> CHR ''-''" "c \<noteq> CHR ''+''"
    using isDecimalDigit_not_prefix by blast+
  have hd: "cs \<noteq> [] \<Longrightarrow> hd cs \<notin> {CHR ''x'', CHR ''X'', CHR ''o'', CHR ''O'', CHR ''b'', CHR ''B''}"
  proof -
    assume "cs \<noteq> []"
    then have "hd cs \<in> set (natToString n)" using s by simp
    then have "isDecimalDigit (hd cs)" by (rule natToString_digits)
    then show ?thesis using isDecimalDigit_not_prefix by blast
  qed
  have p: "parseRadix 10 (c # cs) = Some n"
    using parseDigits_natToString [of n] s by (simp add: parseRadix_def)
  have t: "trimString (c # cs) = c # cs" using trimString_natToString [of n] s by simp
  show ?thesis
    unfolding s BigInt_def t using c hd p by (cases "cs = []") simp_all
qed

text \<open>Reading back what \<^verbatim>\<open>toString\<close> printed gives the number printed.\<close>

lemma BigInt_bigintToString: "BigInt (bigintToString i) = Some i"
proof (cases "i < 0")
  case False
  then show ?thesis by (simp add: bigintToString_def BigInt_natToString)
next
  case True
  let ?s = "natToString (nat (- i))"
  have ne: "?s \<noteq> []" by (rule natToString_nonempty)
  have "last ?s \<in> set ?s" using ne by simp
  then have "\<not> isWhite (last ?s)"
    using natToString_digits isDecimalDigit_not_white by blast
  then have "trimString (CHR ''-'' # ?s) = CHR ''-'' # ?s"
    using ne by (intro trimString_id) (simp_all add: isWhite_def)
  moreover have "parseRadix 10 ?s = Some (nat (- i))"
    using parseDigits_natToString ne by (simp add: parseRadix_def)
  ultimately show ?thesis using True by (simp add: bigintToString_def BigInt_def)
qed

lemma js_round_negative: "x < 0 \<Longrightarrow> js_round x \<le> 0"
  unfolding js_round_def by linarith

lemma js_round_nonpos: "x \<le> 0 \<Longrightarrow> js_round x \<le> 0"
  unfolding js_round_def by linarith

lemma js_round_of_int [simp]: "js_round (of_int k) = k"
  unfolding js_round_def by linarith

subsection \<open>Rounding to binary64\<close>

lemma ilog2_bounds:
  assumes "0 < x"
  shows "2 powi (ilog2 x) \<le> x" "x < 2 powi (ilog2 x + 1)"
proof -
  show "2 powi (ilog2 x) \<le> x"
  proof (cases "1 \<le> x")
    case True
    then have n: "0 < \<lfloor>x\<rfloor>" by linarith
    from bitlen_bounds [OF n] have "2 ^ nat (bitlen \<lfloor>x\<rfloor> - 1) \<le> \<lfloor>x\<rfloor>" by simp
    then have "(2::real) ^ nat (bitlen \<lfloor>x\<rfloor> - 1) \<le> of_int \<lfloor>x\<rfloor>"
      by (metis of_int_le_iff of_int_numeral of_int_power)
    also have "\<dots> \<le> x" by simp
    finally have "(2::real) ^ nat (bitlen \<lfloor>x\<rfloor> - 1) \<le> x" .
    moreover have "1 \<le> bitlen \<lfloor>x\<rfloor>" using n by (simp add: bitlen_alt_def)
    ultimately show ?thesis using True by (simp add: ilog2_def power_int_nonneg_exp)
  next
    case False
    with assms have inv: "1 < 1 / x" by simp
    let ?t = "\<lceil>1 / x\<rceil> - 1"
    from inv have t: "0 < ?t" by linarith
    from bitlen_bounds [OF t] have "?t < 2 ^ nat (bitlen ?t)" by simp
    then have "\<lceil>1 / x\<rceil> \<le> 2 ^ nat (bitlen ?t)" by simp
    then have "of_int \<lceil>1 / x\<rceil> \<le> (2::real) ^ nat (bitlen ?t)"
      by (metis of_int_le_iff of_int_numeral of_int_power)
    moreover have "1 / x \<le> of_int \<lceil>1 / x\<rceil>" by simp
    ultimately have "1 / x \<le> 2 ^ nat (bitlen ?t)" by linarith
    then have "1 / 2 ^ nat (bitlen ?t) \<le> x"
      using assms by (simp add: field_simps)
    moreover have "0 \<le> bitlen ?t" by (rule bitlen_nonneg)
    ultimately show ?thesis using False
      by (simp add: ilog2_def power_int_minus_divide power_int_nonneg_exp)
  qed
  show "x < 2 powi (ilog2 x + 1)"
  proof (cases "1 \<le> x")
    case True
    then have n: "0 < \<lfloor>x\<rfloor>" by linarith
    from bitlen_bounds [OF n] have "\<lfloor>x\<rfloor> + 1 \<le> 2 ^ nat (bitlen \<lfloor>x\<rfloor>)" by simp
    then have "of_int (\<lfloor>x\<rfloor> + 1) \<le> (2::real) ^ nat (bitlen \<lfloor>x\<rfloor>)"
      by (metis of_int_le_iff of_int_numeral of_int_power)
    moreover have "x < of_int (\<lfloor>x\<rfloor> + 1)" by linarith
    ultimately have "x < 2 ^ nat (bitlen \<lfloor>x\<rfloor>)" by linarith
    moreover have "0 \<le> bitlen \<lfloor>x\<rfloor>" by (rule bitlen_nonneg)
    ultimately show ?thesis using True by (simp add: ilog2_def power_int_nonneg_exp)
  next
    case False
    with assms have inv: "1 < 1 / x" by simp
    let ?t = "\<lceil>1 / x\<rceil> - 1"
    from inv have t: "0 < ?t" by linarith
    from bitlen_bounds [OF t] have "2 ^ nat (bitlen ?t - 1) \<le> ?t" by simp
    then have "(2::real) ^ nat (bitlen ?t - 1) \<le> of_int ?t"
      by (metis of_int_le_iff of_int_numeral of_int_power)
    moreover have "of_int ?t < 1 / x" by linarith
    ultimately have "2 ^ nat (bitlen ?t - 1) < 1 / x" by linarith
    then have lt: "x < 1 / 2 ^ nat (bitlen ?t - 1)"
      using assms by (simp add: field_simps)
    have b: "1 \<le> bitlen ?t" using t by (simp add: bitlen_alt_def)
    have "2 powi (- bitlen ?t + 1) = (1 :: real) / 2 ^ nat (bitlen ?t - 1)"
    proof -
      have "- bitlen ?t + 1 = - (bitlen ?t - 1)" by simp
      then have "(2::real) powi (- bitlen ?t + 1) = 1 / 2 powi (bitlen ?t - 1)"
        by (simp only: power_int_minus_divide)
      also have "\<dots> = 1 / 2 ^ nat (bitlen ?t - 1)"
        using b by (simp add: power_int_nonneg_exp)
      finally show ?thesis .
    qed
    with lt show ?thesis using False by (simp add: ilog2_def)
  qed
qed

lemma ilog2_le:
  assumes "0 < x" "x < 2 powi (k + 1)"
  shows "ilog2 x \<le> k"
proof (rule ccontr)
  assume "\<not> ilog2 x \<le> k"
  then have "k + 1 \<le> ilog2 x" by simp
  then have "(2::real) powi (k + 1) \<le> 2 powi (ilog2 x)"
    by (intro power_int_increasing) simp_all
  with ilog2_bounds(1) [OF assms(1)] assms(2) show False by linarith
qed

lemma ilog2_ge:
  assumes "0 < x" "2 powi k \<le> x"
  shows "k \<le> ilog2 x"
proof (rule ccontr)
  assume "\<not> k \<le> ilog2 x"
  then have "ilog2 x + 1 \<le> k" by simp
  then have "(2::real) powi (ilog2 x + 1) \<le> 2 powi k"
    by (intro power_int_increasing) simp_all
  with ilog2_bounds(2) [OF assms(1)] assms(2) show False by linarith
qed

lemma ilog2_mono: "0 < y \<Longrightarrow> y \<le> u \<Longrightarrow> ilog2 y \<le> ilog2 u"
  using ilog2_bounds [of y] ilog2_bounds [of u] ilog2_le [of y "ilog2 u"] by linarith

lemma ulpExponent_mono: "0 < y \<Longrightarrow> y \<le> u \<Longrightarrow> ulpExponent y \<le> ulpExponent u"
  using ilog2_mono [of y u] by (simp add: ulpExponent_def)

lemma roundHalfEven_of_int [simp]: "roundHalfEven (of_int k) = k"
  by (simp add: roundHalfEven_def)

lemma roundHalfEven_ge: "of_int k \<le> y \<Longrightarrow> k \<le> roundHalfEven y"
  unfolding roundHalfEven_def Let_def by (auto simp: le_floor_iff) linarith+

lemma roundHalfEven_le: "y \<le> of_int k \<Longrightarrow> roundHalfEven y \<le> k"
  unfolding roundHalfEven_def Let_def by (auto simp: floor_le_iff)

lemma fl_grid:
  assumes "x \<noteq> 0" "x = of_int m * 2 powi e" "ulpExponent x \<le> e"
  shows "fl x = x"
proof -
  define E where "E = ulpExponent x"
  define p where "p = (2::real) powi E"
  define q where "q = m * 2 ^ nat (e - E)"
  have p: "0 < p" by (simp add: p_def)
  have "(2::real) powi e = 2 powi (e - E) * 2 powi E"
    by (simp flip: power_int_add)
  moreover have "(2::real) powi (e - E) = of_int (2 ^ nat (e - E))"
    using assms(3) by (simp add: power_int_nonneg_exp E_def)
  ultimately have "x = of_int q * p"
    using assms(2) by (simp add: p_def q_def)
  then have xq: "x / p = of_int q" using p by simp
  have "fl x = of_int (roundHalfEven (x / p)) * p"
    using assms(1) by (simp add: fl_def Let_def p_def E_def)
  also have "\<dots> = of_int q * p" by (simp only: xq roundHalfEven_of_int)
  also have "\<dots> = x" using \<open>x = of_int q * p\<close> by simp
  finally show ?thesis .
qed


lemma fl_sub_exact:
  assumes "fl u = u" "0 \<le> n" "of_int n < u" "u < 2 ^ 53"
  shows "fl (u - of_int n) = u - of_int n"
proof -
  let ?E = "ulpExponent u"
  let ?m = "roundHalfEven (u / 2 powi ?E)"
  from assms have upos: "0 < u" by linarith
  then have u: "u = of_int ?m * 2 powi ?E"
    using assms(1) by (simp add: fl_def Let_def)
  have "\<bar>u\<bar> < 2 powi (52 + 1)" using upos assms(4) by simp
  with upos have E0: "?E \<le> 0"
    using ilog2_le [of "\<bar>u\<bar>" 52] by (simp add: ulpExponent_def)
  have one: "(1::real) = of_int (2 ^ nat (- ?E)) * 2 powi ?E"
  proof -
    have "(2::real) powi (- ?E) = of_int (2 ^ nat (- ?E))"
      using E0 by (simp add: power_int_nonneg_exp)
    moreover have "(2::real) powi (- ?E) * 2 powi ?E = 1"
      by (simp flip: power_int_add)
    ultimately show ?thesis by simp
  qed
  have "u - of_int n = of_int ?m * 2 powi ?E - of_int n * (of_int (2 ^ nat (- ?E)) * 2 powi ?E)"
    using u one by simp
  also have "\<dots> = of_int (?m - n * 2 ^ nat (- ?E)) * 2 powi ?E"
    by (simp add: algebra_simps)
  finally have grid: "u - of_int n = of_int (?m - n * 2 ^ nat (- ?E)) * 2 powi ?E" .
  have "ulpExponent (u - of_int n) \<le> ?E"
  proof -
    have "0 < u - of_int n" "u - of_int n \<le> u" using assms by simp_all
    from ulpExponent_mono [OF this] show ?thesis .
  qed
  moreover have "u - of_int n \<noteq> 0" using assms(3) by simp
  ultimately show ?thesis using grid by (intro fl_grid)
qed

lemma fl_lower:
  assumes "fl r = r" "0 < r" "r \<le> x"
  shows "r \<le> fl x"
proof -
  define Er where "Er = ulpExponent r"
  define Ex where "Ex = ulpExponent x"
  define p where "p = (2::real) powi Ex"
  from assms have xpos: "0 < x" by linarith
  have p: "0 < p" by (simp add: p_def)
  have flx: "fl x = of_int (roundHalfEven (x / p)) * p"
    using xpos by (simp add: fl_def Let_def p_def Ex_def)
  have le: "Er \<le> Ex" unfolding Er_def Ex_def using assms(2,3) by (rule ulpExponent_mono)
  show ?thesis
  proof (cases "Er = Ex")
    case True
    define m where "m = roundHalfEven (r / p)"
    have rm: "r = of_int m * p"
      using assms(1,2) True by (simp add: fl_def Let_def p_def Er_def Ex_def m_def)
    then have rp: "r / p = of_int m" using p by simp
    have "r / p \<le> x / p" using assms(3) p by (simp add: divide_right_mono)
    with rp have "of_int m \<le> x / p" by simp
    then have "m \<le> roundHalfEven (x / p)" by (rule roundHalfEven_ge)
    then have "of_int m * p \<le> of_int (roundHalfEven (x / p)) * p"
      using p by simp
    with rm flx show ?thesis by simp
  next
    case False
    with le have lt: "Er < Ex" by simp
    then have big: "ilog2 r < ilog2 x" and Ex: "Ex = ilog2 x - 52"
      using assms(2) xpos by (auto simp: Er_def Ex_def ulpExponent_def max_def split: if_splits)
    have "r < 2 powi (ilog2 r + 1)" using ilog2_bounds(2) [OF assms(2)] .
    also have "(2::real) powi (ilog2 r + 1) \<le> 2 powi (ilog2 x)"
      using big by (intro power_int_increasing) simp_all
    finally have r: "r < 2 powi (ilog2 x)" .
    have "(2::real) powi (ilog2 x) = 2 powi (52 + (ilog2 x - 52))" by simp
    also have "\<dots> = 2 powi 52 * 2 powi (ilog2 x - 52)" by (rule power_int_add) simp
    finally have pow: "(2::real) powi (ilog2 x) = of_int (2 ^ 52) * p" by (simp add: p_def Ex)
    have "2 powi (ilog2 x) \<le> x" using ilog2_bounds(1) [OF xpos] .
    with pow have "of_int (2 ^ 52) * p \<le> x" by simp
    then have "of_int (2 ^ 52) \<le> x / p" using p by (simp add: field_simps)
    then have "2 ^ 52 \<le> roundHalfEven (x / p)" by (rule roundHalfEven_ge)
    then have "of_int (2 ^ 52) * p \<le> of_int (roundHalfEven (x / p)) * p"
      using p by (simp only: mult_le_cancel_right_pos of_int_le_iff)
    with pow flx r show ?thesis by linarith
  qed
qed

lemma roundHalfEven_minus: "roundHalfEven (- y) = - roundHalfEven y"
proof -
  define f where "f = \<lfloor>y\<rfloor>"
  define r where "r = y - of_int f"
  have r: "0 \<le> r" "r < 1" and y: "y = of_int f + r"
    unfolding r_def f_def by linarith+
  show ?thesis
  proof (cases "r = 0")
    case True
    with y have "y = of_int f" by simp
    then show ?thesis by (simp del: of_int_minus add: of_int_minus [symmetric])
  next
    case False
    with r have fl: "\<lfloor>- y\<rfloor> = - f - 1" using y by (intro floor_unique) simp_all
    have fr: "- y - of_int (- f - 1) = 1 - r" using y by simp
    have lhs: "roundHalfEven (- y)
        = (if 1 - r < 1 / 2 then - f - 1 else if 1 / 2 < 1 - r then - f - 1 + 1
           else if even (- f - 1) then - f - 1 else - f - 1 + 1)"
      unfolding roundHalfEven_def Let_def fl fr ..
    have rhs: "roundHalfEven y
        = (if r < 1 / 2 then f else if 1 / 2 < r then f + 1 else if even f then f else f + 1)"
      unfolding roundHalfEven_def Let_def f_def r_def ..
    show ?thesis unfolding lhs rhs by auto
  qed
qed

lemma ulpExponent_minus [simp]: "ulpExponent (- x) = ulpExponent x"
  by (simp add: ulpExponent_def)

lemma fl_minus: "fl (- x) = - fl x"
  by (simp add: fl_def Let_def roundHalfEven_minus)

lemma fl_zero [simp]: "fl 0 = 0"
  by (simp add: fl_def)

lemma fl_fl_pos:
  assumes "0 < x"
  shows "fl (fl x) = fl x"
proof -
  define E where "E = ulpExponent x"
  define p where "p = (2::real) powi E"
  define m where "m = roundHalfEven (x / p)"
  have p: "0 < p" by (simp add: p_def)
  have flx: "fl x = of_int m * p"
    using assms by (simp add: fl_def Let_def p_def E_def m_def)
  have xp: "0 < x / p" using assms p by simp
  then have m0: "0 \<le> m" unfolding m_def using roundHalfEven_ge [of 0 "x / p"] by simp
  show ?thesis
  proof (cases "m = 0")
    case True
    with flx show ?thesis by simp
  next
    case False
    with m0 have mpos: "0 < m" by simp
    then have flpos: "0 < fl x" using flx p by simp
    have abs: "\<bar>x\<bar> = x" "\<bar>fl x\<bar> = fl x" using assms flpos by simp_all
    have upper: "x < 2 powi (ilog2 x + 1)" using ilog2_bounds(2) [OF assms] .
    show ?thesis
    proof (cases "ilog2 x < - 1022")
      case True
      then have E: "E = - 1074" by (simp add: E_def ulpExponent_def abs)
      have "x < 2 powi (- 1022)"
      proof -
        have "(2::real) powi (ilog2 x + 1) \<le> 2 powi (- 1022)"
          using True by (intro power_int_increasing) simp_all
        with upper show ?thesis by linarith
      qed
      also have "(2::real) powi (- 1022) = 2 powi (52 + (- 1074))" by simp
      also have "\<dots> = 2 powi 52 * 2 powi (- 1074)" by (rule power_int_add) simp
      finally have "x < of_int (2 ^ 52) * p" by (simp add: p_def E)
      then have "x / p \<le> of_int (2 ^ 52)" using p by (simp add: field_simps)
      then have "m \<le> 2 ^ 52" unfolding m_def by (rule roundHalfEven_le)
      have "ulpExponent (fl x) \<le> E"
      proof -
        have "fl x \<le> of_int (2 ^ 52) * p"
          unfolding flx using \<open>m \<le> 2 ^ 52\<close> p
          by (simp only: mult_le_cancel_right_pos of_int_le_iff)
        also have "\<dots> = 2 powi 52 * 2 powi (- 1074)" by (simp add: p_def E)
        also have "\<dots> = 2 powi (52 + (- 1074))" by (rule power_int_add [symmetric]) simp
        finally have "fl x \<le> 2 powi (- 1022)" by simp
        also have "(2::real) powi (- 1022) < 2 powi (- 1022 + 1)"
          by (intro power_int_strict_increasing) simp_all
        finally have "ilog2 (fl x) \<le> - 1022" using flpos by (intro ilog2_le)
        then show ?thesis by (simp add: ulpExponent_def abs E)
      qed
      moreover have "fl x \<noteq> 0" using flpos by simp
      moreover have "fl x = of_int m * 2 powi E" using flx by (simp add: p_def)
      ultimately show ?thesis by (intro fl_grid [where m = m and e = E])
    next
      case False
      then have E: "E = ilog2 x - 52" by (simp add: E_def ulpExponent_def abs)
      have "ilog2 x + 1 = 53 + (ilog2 x - 52)" by simp
      then have "(2::real) powi (ilog2 x + 1) = 2 powi (53 + (ilog2 x - 52))" by (rule arg_cong)
      also have "\<dots> = 2 powi 53 * 2 powi (ilog2 x - 52)" by (rule power_int_add) simp
      finally have pw: "(2::real) powi (ilog2 x + 1) = of_int (2 ^ 53) * p" by (simp add: p_def E)
      with upper have "x / p \<le> of_int (2 ^ 53)" using p by (simp add: field_simps)
      then have m53: "m \<le> 2 ^ 53" unfolding m_def by (rule roundHalfEven_le)
      show ?thesis
      proof (cases "m = 2 ^ 53")
        case True
        have "fl x = of_int (2 ^ 53) * p" using flx True by simp
        with pw have eq: "fl x = 2 powi (ilog2 x + 1)" by simp
        have "(2::real) powi (ilog2 x + 1) < 2 powi (ilog2 x + 1 + 1)"
          by (intro power_int_strict_increasing) simp_all
        with eq flpos have "ilog2 (fl x) \<le> ilog2 x + 1" by (intro ilog2_le) simp_all
        then have "ulpExponent (fl x) \<le> E + 1" using False by (simp add: ulpExponent_def abs E)
        moreover have "fl x = of_int (2 ^ 52) * 2 powi (E + 1)"
        proof -
          have "ilog2 x + 1 = 52 + (E + 1)" by (simp add: E)
          then have "(2::real) powi (ilog2 x + 1) = 2 powi (52 + (E + 1))" by (rule arg_cong)
          also have "\<dots> = 2 powi 52 * 2 powi (E + 1)" by (rule power_int_add) simp
          finally show ?thesis using eq by simp
        qed
        moreover have "fl x \<noteq> 0" using flpos by simp
        ultimately show ?thesis by (intro fl_grid [where m = "2 ^ 52" and e = "E + 1"])
      next
        case ne: False
        with m53 have "m + 1 \<le> 2 ^ 53" by simp
        then have "of_int m < (of_int (2 ^ 53) :: real)" by (simp only: of_int_less_iff)
        then have "fl x < of_int (2 ^ 53) * p" unfolding flx using p by simp
        with pw have "fl x < 2 powi (ilog2 x + 1)" by simp
        with flpos have "ilog2 (fl x) \<le> ilog2 x" by (intro ilog2_le)
        then have "ulpExponent (fl x) \<le> E" using False by (simp add: ulpExponent_def abs E)
        moreover have "fl x \<noteq> 0" using flpos by simp
        moreover have "fl x = of_int m * 2 powi E" using flx by (simp add: p_def)
        ultimately show ?thesis by (intro fl_grid [where m = m and e = E])
      qed
    qed
  qed
qed

lemma fl_fl [simp]: "fl (fl x) = fl x"
proof (cases "0 < x")
  case True
  then show ?thesis by (rule fl_fl_pos)
next
  case False
  show ?thesis
  proof (cases "x = 0")
    case True
    then show ?thesis by simp
  next
    case ne: False
    with False have "0 < - x" by simp
    from fl_fl_pos [OF this] show ?thesis by (simp add: fl_minus)
  qed
qed

text \<open>Evaluation of \<open>fl\<close> on numerals and their quotients.\<close>

lemma bitlen_numeral_eval:
  "bitlen (numeral (Num.Bit0 n)) = bitlen (numeral n) + 1"
  "bitlen (numeral (Num.Bit1 n)) = bitlen (numeral n) + 1"
  "bitlen (numeral Num.One) = 1"
  "bitlen 1 = 1"
  "bitlen (- numeral n) = 0"
proof -
  show "bitlen (numeral (Num.Bit0 n)) = bitlen (numeral n) + 1"
    by (subst compute_bitlen) simp
  show "bitlen (numeral (Num.Bit1 n)) = bitlen (numeral n) + 1"
    by (subst compute_bitlen) simp
  show "bitlen 1 = 1" by (subst compute_bitlen) simp
  then show "bitlen (numeral Num.One) = 1" by simp
  show "bitlen (- numeral n) = 0" by (subst compute_bitlen) simp
qed

lemmas fl_eval =
  fl_def [of "numeral n" for n] fl_def [of "numeral m / numeral n" for m n]
  fl_def [of "- numeral n" for n] fl_def [of "- (numeral m / numeral n)" for m n]
  fl_def [of "1 / numeral n" for n] fl_def [of "- (1 / numeral n)" for n] fl_def [of 1]
  fl_def [of "- 1"] fl_zero
  ulpExponent_def ilog2_def roundHalfEven_def Let_def bitlen_numeral_eval js_round_def

lemma fl_nonneg: "0 \<le> x \<Longrightarrow> 0 \<le> fl x"
proof (cases "x = 0")
  case True
  then show ?thesis by simp
next
  case False
  assume "0 \<le> x"
  with False have "0 \<le> x / 2 powi (ulpExponent x)" by simp
  then have "0 \<le> roundHalfEven (x / 2 powi (ulpExponent x))"
    using roundHalfEven_ge [of 0] by simp
  with False show ?thesis by (simp add: fl_def Let_def)
qed

lemma fl_nonpos: "x \<le> 0 \<Longrightarrow> fl x \<le> 0"
  using fl_nonneg [of "- x"] by (simp add: fl_minus)

text \<open>
  Where rounding shows: with anchors 7 blocks and 18 ms apart and the target 9 ms after the
  first, the exact offset is 3.5 blocks, the binary64 one 3.4999999999999996.
\<close>

lemma interpolate_rounds_binary64:
  "interpolate \<lparr> a_block = 1000, a_time = 1700000000000 \<rparr>
       \<lparr> a_block = 1007, a_time = 1700000000018 \<rparr> 1700000000009 = 1003
   \<and> js_round (9 / (18 / 7)) = 4"
  by (simp add: interpolate_def fl_eval)

section \<open>Properties of the collections\<close>


lemma insertMany_extends:
  "\<exists>added. fst (insertMany_unordered key col ds) = col @ added \<and> set added \<subseteq> set ds"
proof (induction ds arbitrary: col)
  case Nil
  show ?case by simp
next
  case (Cons d ds)
  show ?case
  proof (cases "key d \<in> set (map key col)")
    case True
    obtain added where "fst (insertMany_unordered key col ds) = col @ added" "set added \<subseteq> set ds"
      using Cons.IH [of col] by blast
    with True show ?thesis by (auto split: prod.splits)
  next
    case False
    obtain added where "fst (insertMany_unordered key (col @ [d]) ds) = (col @ [d]) @ added"
      "set added \<subseteq> set ds"
      using Cons.IH [of "col @ [d]"] by blast
    with False show ?thesis by (intro exI [of _ "d # added"]) auto
  qed
qed

lemma insertMany_keys_present:
  "key ` set ds \<subseteq> key ` set (fst (insertMany_unordered key col ds))"
proof (induction ds arbitrary: col)
  case Nil
  show ?case by simp
next
  case (Cons d ds)
  show ?case
  proof (cases "key d \<in> set (map key col)")
    case True
    obtain added where a: "fst (insertMany_unordered key col ds) = col @ added"
      using insertMany_extends [of key col ds] by blast
    have "key d \<in> key ` set (fst (insertMany_unordered key col ds))"
      using True a by auto
    with True Cons.IH [of col] show ?thesis by (auto split: prod.splits)
  next
    case False
    obtain added where a: "fst (insertMany_unordered key (col @ [d]) ds) = (col @ [d]) @ added"
      using insertMany_extends [of key "col @ [d]" ds] by blast
    have "key d \<in> key ` set (fst (insertMany_unordered key (col @ [d]) ds))"
      using a by auto
    with False Cons.IH [of "col @ [d]"] show ?thesis by auto
  qed
qed

lemma firstMin_None: "firstMin k xs = None \<longleftrightarrow> xs = []"
  by (cases xs) (auto split: option.splits if_splits)

lemma firstMax_None: "firstMax k xs = None \<longleftrightarrow> xs = []"
  by (cases xs) (auto split: option.splits if_splits)

lemma firstMin_Some:
  "firstMin k xs = Some x \<Longrightarrow> x \<in> set xs \<and> (\<forall>y \<in> set xs. k x \<le> k y)"
proof (induction xs arbitrary: x)
  case Nil
  then show ?case by simp
next
  case (Cons a xs)
  show ?case
  proof (cases "firstMin k xs")
    case None
    then have "xs = []" by (simp add: firstMin_None firstMax_None)
    with Cons.prems show ?thesis by simp
  next
    case (Some y)
    from Cons.IH [OF Some] have y: "y \<in> set xs" "\<forall>z \<in> set xs. k y \<le> k z" by simp_all
    show ?thesis
    proof (cases "k a \<le> k y")
      case True
      with Some Cons.prems have "x = a" by simp
      with True y show ?thesis by auto
    next
      case False
      with Some Cons.prems have "x = y" by simp
      with False y show ?thesis by auto
    qed
  qed
qed

lemma firstMax_Some:
  "firstMax k xs = Some x \<Longrightarrow> x \<in> set xs \<and> (\<forall>y \<in> set xs. k y \<le> k x)"
proof (induction xs arbitrary: x)
  case Nil
  then show ?case by simp
next
  case (Cons a xs)
  show ?case
  proof (cases "firstMax k xs")
    case None
    then have "xs = []" by (simp add: firstMin_None firstMax_None)
    with Cons.prems show ?thesis by simp
  next
    case (Some y)
    from Cons.IH [OF Some] have y: "y \<in> set xs" "\<forall>z \<in> set xs. k z \<le> k y" by simp_all
    show ?thesis
    proof (cases "k a \<ge> k y")
      case True
      with Some Cons.prems have "x = a" by simp
      with True y show ?thesis by auto
    next
      case False
      with Some Cons.prems have "x = y" by simp
      with False y show ?thesis by auto
    qed
  qed
qed

lemma updateOne_list_all2:
  "list_all2 (\<lambda>old new. new = old \<or> (P old \<and> new = f old)) xs (updateOne P f xs)"
  by (induction xs) (auto simp: list_all2_same)

lemma updateOne_first:
  assumes "i < length xs" "P (xs ! i)" "\<forall>j<i. \<not> P (xs ! j)"
  shows "updateOne P f xs = xs[i := f (xs ! i)]"
  using assms
proof (induction xs arbitrary: i)
  case Nil
  then show ?case by simp
next
  case (Cons x xs)
  show ?case
  proof (cases i)
    case 0
    with Cons.prems show ?thesis by simp
  next
    case (Suc k)
    with Cons.prems have "\<not> P x" by auto
    moreover from Suc Cons.prems have "updateOne P f xs = xs[k := f (xs ! k)]"
      by (intro Cons.IH) auto
    ultimately show ?thesis using Suc by simp
  qed
qed

lemma updateOne_none: "\<forall>x \<in> set xs. \<not> P x \<Longrightarrow> updateOne P f xs = xs"
  by (induction xs) simp_all

section \<open>Properties of the transfer store\<close>

lemma filter_validTransfer_newTransferDoc:
  "filter validTransfer (map newTransferDoc batch) = map newTransferDoc (filter validNewTransfer batch)"
  by (induction batch) (simp_all add: validNewTransfer_def)


lemma insertTransfersBatch_collection:
  "\<exists>added. snd (insertTransfersBatch (Collection stored) batch) = Collection (stored @ added)
      \<and> set added \<subseteq> set (map newTransferDoc (filter validNewTransfer batch))
      \<and> t_hypercoreHash ` set (map newTransferDoc (filter validNewTransfer batch))
          \<subseteq> t_hypercoreHash ` set (stored @ added)"
proof (cases "filter validTransfer (map newTransferDoc batch) = []")
  case True
  then have "snd (insertTransfersBatch (Collection stored) batch) = Collection (stored @ [])"
    by (simp add: insertTransfersBatch_def TransferModel_insertMany_def Let_def)
  moreover from True have "map newTransferDoc (filter validNewTransfer batch) = []"
    by (simp add: filter_validTransfer_newTransferDoc)
  ultimately show ?thesis by (metis empty_subsetI image_empty list.set(1))
next
  case False
  let ?docs = "filter validTransfer (map newTransferDoc batch)"
  from False have ne: "batch \<noteq> []" by auto
  obtain added where a: "fst (insertMany_unordered t_hypercoreHash stored ?docs) = stored @ added"
    "set added \<subseteq> set ?docs"
    using insertMany_extends [of t_hypercoreHash stored ?docs] by blast
  have k: "t_hypercoreHash ` set ?docs \<subseteq> t_hypercoreHash ` set (stored @ added)"
    using insertMany_keys_present [of t_hypercoreHash ?docs stored] a by simp
  have "snd (insertTransfersBatch (Collection stored) batch) = Collection (stored @ added)"
    using False ne a
    by (cases "insertMany_unordered t_hypercoreHash stored ?docs")
       (simp add: insertTransfersBatch_def TransferModel_insertMany_def Let_def list_all_iff)
  with a k show ?thesis by (auto simp: filter_validTransfer_newTransferDoc)
qed




text \<open>
  C4, as stated, fails: \<^verbatim>\<open>markTransferFailed\<close> filters on \<^verbatim>\<open>hypercoreHash\<close> alone, so a
  transfer that is MATCHED becomes FAILED (and keeps its EVM fields).
\<close>

theorem markTransferFailed_leaves_MATCHED_counterexample:
  "t_status matchedTransfer = MATCHED
   \<and> markTransferFailed (Collection [matchedTransfer]) ''0xc0de01'' ''Not found after searching 100 blocks''
       = (Inr (), Collection [matchedTransfer \<lparr> t_status := FAILED,
                                t_failReason := Some ''Not found after searching 100 blocks'' \<rparr>])"
  by (simp add: markTransferFailed_def matchedTransfer_def newTransferDoc_def exampleNewTransfer_def)

text \<open>
  C4, amended. On a collection that answers, \<^verbatim>\<open>markTransferMatched\<close> and \<^verbatim>\<open>markTransferFailed\<close>
  update the first stored transfer with the given hash (the only one, under the unique
  index), whatever its status is: the one sets the EVM fields, status MATCHED and no fail
  reason, the other sets status FAILED and the fail reason and keeps every other field. So
  a MATCHED transfer becomes FAILED and a FAILED one MATCHED. Every other transfer is left
  as it is, and with no transfer of that hash nothing changes. \<^verbatim>\<open>insertTransfersBatch\<close>
  changes no stored transfer and adds only PENDING ones. No operation sets the status of a
  stored transfer to PENDING.
\<close>

theorem transfer_status_transitions:
  "(\<forall>i < length stored.
        t_hypercoreHash (stored ! i) = h \<and> (\<forall>j < i. t_hypercoreHash (stored ! j) \<noteq> h) \<longrightarrow>
          markTransferMatched (Collection stored) h evmData
            = (Inr (), Collection (stored[i := (stored ! i)
                 \<lparr> t_hyperevmHash := Some (ev_hyperevmHash evmData),
                   t_hyperevmExplorerHash := Some (ev_hyperevmExplorerHash evmData),
                   t_hyperevmBlock := Some (ev_hyperevmBlock evmData),
                   t_hyperevmBlockHash := Some (ev_hyperevmBlockHash evmData),
                   t_hyperevmTime := Some (ev_hyperevmTime evmData),
                   t_contractAddress := ev_contractAddress evmData,
                   t_status := MATCHED,
                   t_failReason := None \<rparr>]))
        \<and> markTransferFailed (Collection stored) h reason
            = (Inr (), Collection (stored[i := (stored ! i)
                 \<lparr> t_status := FAILED, t_failReason := Some reason \<rparr>])))
   \<and> (h \<notin> t_hypercoreHash ` set stored \<longrightarrow>
         markTransferMatched (Collection stored) h evmData = (Inr (), Collection stored)
       \<and> markTransferFailed (Collection stored) h reason = (Inr (), Collection stored))
   \<and> (\<exists>added. snd (insertTransfersBatch (Collection stored) batch) = Collection (stored @ added)
       \<and> list_all (\<lambda>t. t_status t = PENDING) added)"
proof (intro conjI allI impI)
  fix i
  assume i: "i < length stored"
    and first: "t_hypercoreHash (stored ! i) = h \<and> (\<forall>j < i. t_hypercoreHash (stored ! j) \<noteq> h)"
  let ?P = "\<lambda>t. t_hypercoreHash t = h"
  from i first have *: "updateOne ?P f stored = stored[i := f (stored ! i)]" for f
    by (intro updateOne_first) auto
  show "markTransferMatched (Collection stored) h evmData
            = (Inr (), Collection (stored[i := (stored ! i)
                 \<lparr> t_hyperevmHash := Some (ev_hyperevmHash evmData),
                   t_hyperevmExplorerHash := Some (ev_hyperevmExplorerHash evmData),
                   t_hyperevmBlock := Some (ev_hyperevmBlock evmData),
                   t_hyperevmBlockHash := Some (ev_hyperevmBlockHash evmData),
                   t_hyperevmTime := Some (ev_hyperevmTime evmData),
                   t_contractAddress := ev_contractAddress evmData,
                   t_status := MATCHED,
                   t_failReason := None \<rparr>]))"
    unfolding markTransferMatched_def by (simp add: *)
  show "markTransferFailed (Collection stored) h reason
            = (Inr (), Collection (stored[i := (stored ! i)
                 \<lparr> t_status := FAILED, t_failReason := Some reason \<rparr>]))"
    unfolding markTransferFailed_def by (simp add: *)
next
  assume "h \<notin> t_hypercoreHash ` set stored"
  then have *: "updateOne (\<lambda>t. t_hypercoreHash t = h) f stored = stored" for f
    by (intro updateOne_none) auto
  show "markTransferMatched (Collection stored) h evmData = (Inr (), Collection stored)"
    unfolding markTransferMatched_def by (simp add: *)
  show "markTransferFailed (Collection stored) h reason = (Inr (), Collection stored)"
    unfolding markTransferFailed_def by (simp add: *)
next
  obtain added where a: "snd (insertTransfersBatch (Collection stored) batch) = Collection (stored @ added)"
    and s: "set added \<subseteq> set (map newTransferDoc (filter validNewTransfer batch))"
    using insertTransfersBatch_collection [of stored batch] by blast
  have "list_all (\<lambda>t. t_status t = PENDING) added"
    using s by (auto simp: list_all_iff newTransferDoc_def)
  with a show "\<exists>added. snd (insertTransfersBatch (Collection stored) batch) = Collection (stored @ added)
       \<and> list_all (\<lambda>t. t_status t = PENDING) added" by blast
qed

theorem transfer_status_transitions_witness:
  "t_status matchedTransfer = MATCHED
   \<and> markTransferFailed (Collection [examplePending, matchedTransfer \<lparr> t_hypercoreHash := ''0xc0de03'' \<rparr>])
        ''0xc0de03'' ''Not found after searching 100 blocks''
       = (Inr (), Collection [examplePending,
            matchedTransfer \<lparr> t_hypercoreHash := ''0xc0de03'', t_status := FAILED,
                              t_failReason := Some ''Not found after searching 100 blocks'' \<rparr>])
   \<and> markTransferMatched
        (Collection [examplePending,
            matchedTransfer \<lparr> t_hypercoreHash := ''0xc0de03'', t_status := FAILED,
                              t_failReason := Some ''Not found after searching 100 blocks'' \<rparr>])
        ''0xc0de03'' exampleEvmData
       = (Inr (), Collection [examplePending,
            matchedTransfer \<lparr> t_hypercoreHash := ''0xc0de03'', t_status := MATCHED,
                              t_failReason := None \<rparr>])
   \<and> markTransferFailed (Collection [examplePending]) ''0xc0de03'' ''Not found''
       = (Inr (), Collection [examplePending])"
proof -
  let ?m = "matchedTransfer \<lparr> t_hypercoreHash := ''0xc0de03'' \<rparr>"
  let ?f = "matchedTransfer \<lparr> t_hypercoreHash := ''0xc0de03'', t_status := FAILED,
                              t_failReason := Some ''Not found after searching 100 blocks'' \<rparr>"
  have hashes: "t_hypercoreHash examplePending = ''0xc0de01''"
    by (simp add: examplePending_def newTransferDoc_def exampleNewTransfer_def)
  have 1: "markTransferFailed (Collection [examplePending, ?m]) ''0xc0de03''
             ''Not found after searching 100 blocks'' = (Inr (), Collection [examplePending, ?f])"
    using transfer_status_transitions
            [of "[examplePending, ?m]" "''0xc0de03''" exampleEvmData
                "''Not found after searching 100 blocks''" "[]", THEN conjunct1, rule_format, of 1]
          hashes
    by (simp add: less_Suc_eq)
  have 2: "markTransferMatched (Collection [examplePending, ?f]) ''0xc0de03'' exampleEvmData
             = (Inr (), Collection [examplePending,
                  matchedTransfer \<lparr> t_hypercoreHash := ''0xc0de03'', t_status := MATCHED,
                                    t_failReason := None \<rparr>])"
    using transfer_status_transitions
            [of "[examplePending, ?f]" "''0xc0de03''" exampleEvmData "''x''" "[]",
             THEN conjunct1, rule_format, of 1]
          hashes
    by (simp add: less_Suc_eq matchedTransfer_def exampleEvmData_def newTransferDoc_def
          exampleNewTransfer_def)
  have 3: "markTransferFailed (Collection [examplePending]) ''0xc0de03'' ''Not found''
             = (Inr (), Collection [examplePending])"
    using transfer_status_transitions
            [of "[examplePending]" "''0xc0de03''" exampleEvmData "''Not found''" "[]",
             THEN conjunct2, THEN conjunct1]
          hashes
    by simp
  have "t_status matchedTransfer = MATCHED" by (simp add: matchedTransfer_def)
  with 1 2 3 show ?thesis by simp
qed

section \<open>Properties of the producer\<close>




section \<open>Properties of the shared backoff\<close>







section \<open>Properties of the anchor store\<close>

lemma findBracketingAnchors_before:
  assumes "findBracketingAnchors db t = Inr (Some b, after)"
  shows "ba_blockTimestamp b \<le> t"
proof -
  from assms obtain docs d where
    "firstMax st_blockTimestamp (filter (\<lambda>d. st_blockTimestamp d \<le> t) docs) = Some d"
    "b = toBlockAnchor d"
    by (cases db) (auto simp: findBracketingAnchors_def)
  with firstMax_Some [of st_blockTimestamp "filter (\<lambda>d. st_blockTimestamp d \<le> t) docs" d]
  show ?thesis by (simp add: toBlockAnchor_def)
qed

lemma findBracketingAnchors_after:
  assumes "findBracketingAnchors db t = Inr (before, Some a)"
  shows "ba_blockTimestamp a > t"
proof -
  from assms obtain docs d where
    "firstMin st_blockTimestamp (filter (\<lambda>d. st_blockTimestamp d > t) docs) = Some d"
    "a = toBlockAnchor d"
    by (cases db) (auto simp: findBracketingAnchors_def)
  with firstMin_Some [of st_blockTimestamp "filter (\<lambda>d. st_blockTimestamp d > t) docs" d]
  show ?thesis by (simp add: toBlockAnchor_def)
qed

lemma bracketing_boundsInv:
  "boundsInv t
     (case fst (case findBracketingAnchors db t of Inl err \<Rightarrow> (None, None) | Inr anchors \<Rightarrow> anchors) of
        Some before \<Rightarrow> toAnchor before | None \<Rightarrow> SEED_ANCHOR)
     (map_option toAnchor
        (snd (case findBracketingAnchors db t of Inl err \<Rightarrow> (None, None) | Inr anchors \<Rightarrow> anchors)))"
proof (cases "findBracketingAnchors db t")
  case (Inl err)
  then show ?thesis by (simp add: boundsInv_def)
next
  case (Inr anchors)
  obtain before after where p: "anchors = (before, after)" by (cases anchors)
  have lo: "(case before of Some b \<Rightarrow> toAnchor b | None \<Rightarrow> SEED_ANCHOR) = SEED_ANCHOR
            \<or> a_time (case before of Some b \<Rightarrow> toAnchor b | None \<Rightarrow> SEED_ANCHOR) \<le> t"
  proof (cases before)
    case None
    then show ?thesis by simp
  next
    case (Some b)
    with Inr p findBracketingAnchors_before [of db t b after] show ?thesis
      by (simp add: toAnchor_def)
  qed
  have hi: "case map_option toAnchor after of None \<Rightarrow> True | Some ub \<Rightarrow> a_time ub > t"
  proof (cases after)
    case None
    then show ?thesis by simp
  next
    case (Some a)
    with Inr p findBracketingAnchors_after [of db t before a] show ?thesis
      by (simp add: toAnchor_def)
  qed
  show ?thesis using Inr p lo hi by (simp add: boundsInv_def)
qed

lemma blockDocs_lowercased: "d \<in> set (blockDocs block) \<Longrightarrow> lowercasedDoc d"
  by (auto simp: blockDocs_def lowercasedDoc_def toLowerCase_idem split: option.splits)

lemma storeBlocksSystemTxs_new_docs:
  assumes "storeBlocksSystemTxs (Collection docs) blocks = Inr (Collection docs')"
    and "d \<in> set docs'"
  shows "d \<in> set docs \<or> lowercasedDoc d"
proof (cases "filter (\<lambda>b. length (b_systemTxs b) > 0) blocks = []")
  case True
  with assms show ?thesis by (simp add: storeBlocksSystemTxs_def)
next
  case False
  let ?all = "concat (map blockDocs (filter (\<lambda>b. length (b_systemTxs b) > 0) blocks))"
  let ?valid = "filter validSystemTransaction ?all"
  show ?thesis
  proof (cases "?valid = []")
    case True
    with False assms show ?thesis by (simp add: storeBlocksSystemTxs_def Let_def)
  next
    case nonempty: False
    with False assms(1) have "docs' = fst (insertMany_unordered st_hash docs ?valid)"
      by (simp add: storeBlocksSystemTxs_def Let_def)
    then obtain added where "docs' = docs @ added" "set added \<subseteq> set ?valid"
      using insertMany_extends [of st_hash docs ?valid] by auto
    with assms(2) have "d \<in> set docs \<or> d \<in> set ?all" by auto
    then show ?thesis using blockDocs_lowercased by auto
  qed
qed

lemma findMatchingTx_lowercases:
  "findMatchingTx col params
     = findMatchingTx col (params \<lparr> p_from := toLowerCase (p_from params),
                                    p_assetRecipient := toLowerCase (p_assetRecipient params) \<rparr>)"
proof -
  have "matchFilter (params \<lparr> p_from := toLowerCase (p_from params),
                               p_assetRecipient := toLowerCase (p_assetRecipient params) \<rparr>)
          = matchFilter params"
    by (rule ext) (simp add: matchFilter_def toLowerCase_idem)
  then show ?thesis by (cases col) (simp_all add: findMatchingTx_def)
qed

section \<open>Properties of the finder\<close>

lemma matchesTx_True:
  "matchesTx tx usr sys amt = Inr True \<longleftrightarrow>
     toLowerCase (tx_from tx) = sys \<and> toLowerCase (tx_assetRecipient tx) = usr
     \<and> BigInt (tx_amountWei tx) = Some amt"
  by (auto simp: matchesTx_def split: option.splits)

lemma matchesTx_lowercases:
  "matchesTx tx usr sys amt
     = matchesTx (tx \<lparr> tx_from := toLowerCase (tx_from tx),
                        tx_assetRecipient := toLowerCase (tx_assetRecipient tx) \<rparr>) usr sys amt"
  by (simp add: matchesTx_def toLowerCase_idem)

lemma searchTxs_sound:
  "searchTxs block txs usr sys amt = Inr (Some (b, tx)) \<Longrightarrow>
     b = block \<and> tx \<in> set txs \<and> matchesTx tx usr sys amt = Inr True"
  by (induction txs) (auto split: sum.splits if_splits)

lemma searchBlocks_sound:
  "searchBlocks blocks usr sys amt = Inr (Some (b, tx)) \<Longrightarrow>
     b \<in> set blocks \<and> tx \<in> set (b_systemTxs b) \<and> matchesTx tx usr sys amt = Inr True"
proof (induction blocks)
  case Nil
  then show ?case by simp
next
  case (Cons block blocks)
  show ?case
  proof (cases "searchTxs block (b_systemTxs block) usr sys amt")
    case (Inl e)
    with Cons.prems show ?thesis by simp
  next
    case (Inr found)
    show ?thesis
    proof (cases found)
      case None
      with Inr Cons show ?thesis by simp
    next
      case (Some p)
      with Inr Cons.prems have "searchTxs block (b_systemTxs block) usr sys amt = Inr (Some (b, tx))"
        by simp
      from searchTxs_sound [OF this] show ?thesis by simp
    qed
  qed
qed

lemma searchBlocks_no_txs:
  "\<forall>b \<in> set blocks. b_systemTxs b = [] \<Longrightarrow> searchBlocks blocks usr sys amt = Inr None"
  by (induction blocks) auto

lemma searchRound_log_length: "length (snd (searchRound s rnd lb ub bs)) \<le> 1"
  by (simp add: searchRound_def Let_def split: sum.splits option.splits prod.splits)

lemma searchLoop_log_length: "length (snd (searchLoop s rnd lb ub bs)) \<le> MAX_ROUNDS - rnd"
proof (induction s rnd lb ub bs rule: searchLoop.induct)
  case (1 s rnd lb ub bs)
  show ?case
  proof (cases "rnd < MAX_ROUNDS")
    case False
    then show ?thesis by (simp add: searchLoop.simps)
  next
    case True
    obtain step entries where r: "searchRound s rnd lb ub bs = (step, entries)"
      by (cases "searchRound s rnd lb ub bs")
    have le: "length entries \<le> 1" using searchRound_log_length [of s rnd lb ub bs] r by simp
    show ?thesis
    proof (cases step)
      case (Done res)
      with True r le show ?thesis by (simp add: searchLoop.simps [of s rnd])
    next
      case (Continue lb' ub' bs')
      have "length (snd (searchLoop s (Suc rnd) lb' ub' bs')) \<le> MAX_ROUNDS - Suc rnd"
        using "1.IH" [of step entries lb' ub' bs'] True r Continue by simp
      with True r le Continue show ?thesis
        by (cases "searchLoop s (Suc rnd) lb' ub' bs'") (simp add: searchLoop.simps [of s rnd])
    qed
  qed
qed

lemma searchRound_found:
  assumes "fst (searchRound s rnd lb ub bs) = Done (Inr res)"
  shows "\<exists>nums blocks block tx.
           s_fetchBlocks s rnd nums = Inr blocks
           \<and> searchBlocks blocks (s_user s) (s_systemAddress s) (s_expectedAmount s) = Inr (Some (block, tx))
           \<and> res = \<lparr> r_hash = tx_hash tx, r_explorerHash = tx_explorerHash tx,
                      r_block = b_number block, r_blockHash = b_hash block,
                      r_blockTime = b_timestamp block, r_contractAddress = tx_contractAddress tx,
                      r_blocksSearched = bs + length blocks, r_rounds = rnd + 1 \<rparr>"
  using assms
  by (auto simp: searchRound_def Let_def split: sum.splits option.splits prod.splits if_splits)

lemma searchLoop_found:
  "fst (searchLoop s rnd lb ub bs) = Inr res \<Longrightarrow>
     \<exists>r nums blocks block tx n.
        rnd \<le> r \<and> r < MAX_ROUNDS
        \<and> s_fetchBlocks s r nums = Inr blocks
        \<and> searchBlocks blocks (s_user s) (s_systemAddress s) (s_expectedAmount s) = Inr (Some (block, tx))
        \<and> res = \<lparr> r_hash = tx_hash tx, r_explorerHash = tx_explorerHash tx,
                   r_block = b_number block, r_blockHash = b_hash block,
                   r_blockTime = b_timestamp block, r_contractAddress = tx_contractAddress tx,
                   r_blocksSearched = n, r_rounds = r + 1 \<rparr>"
proof (induction s rnd lb ub bs rule: searchLoop.induct)
  case (1 s rnd lb ub bs)
  show ?case
  proof (cases "rnd < MAX_ROUNDS")
    case False
    with "1.prems" show ?thesis by (simp add: searchLoop.simps)
  next
    case True
    obtain step entries where r: "searchRound s rnd lb ub bs = (step, entries)"
      by (cases "searchRound s rnd lb ub bs")
    show ?thesis
    proof (cases step)
      case (Done res')
      with True r "1.prems" have "fst (searchRound s rnd lb ub bs) = Done (Inr res)"
        by (simp add: searchLoop.simps [of s rnd])
      from searchRound_found [OF this] obtain nums blocks block tx where
        "s_fetchBlocks s rnd nums = Inr blocks"
        "searchBlocks blocks (s_user s) (s_systemAddress s) (s_expectedAmount s) = Inr (Some (block, tx))"
        "res = \<lparr> r_hash = tx_hash tx, r_explorerHash = tx_explorerHash tx,
                   r_block = b_number block, r_blockHash = b_hash block,
                   r_blockTime = b_timestamp block, r_contractAddress = tx_contractAddress tx,
                   r_blocksSearched = bs + length blocks, r_rounds = rnd + 1 \<rparr>"
        by blast
      with True show ?thesis
        by (intro exI [of _ rnd] exI [of _ nums] exI [of _ blocks] exI [of _ block] exI [of _ tx]
              exI [of _ "bs + length blocks"]) simp
    next
      case (Continue lb' ub' bs')
      have "fst (searchLoop s (Suc rnd) lb' ub' bs') = Inr res"
        using "1.prems" True r Continue
        by (simp add: searchLoop.simps [of s rnd] split: prod.splits)
      with "1.IH" [of step entries lb' ub' bs'] True r Continue
      obtain r' nums blocks block tx n where
        "Suc rnd \<le> r'" "r' < MAX_ROUNDS" "s_fetchBlocks s r' nums = Inr blocks"
        "searchBlocks blocks (s_user s) (s_systemAddress s) (s_expectedAmount s) = Inr (Some (block, tx))"
        "res = \<lparr> r_hash = tx_hash tx, r_explorerHash = tx_explorerHash tx,
                   r_block = b_number block, r_blockHash = b_hash block,
                   r_blockTime = b_timestamp block, r_contractAddress = tx_contractAddress tx,
                   r_blocksSearched = n, r_rounds = r' + 1 \<rparr>"
        by auto
      then show ?thesis
        by (intro exI [of _ r'] exI [of _ nums] exI [of _ blocks] exI [of _ block] exI [of _ tx]
              exI [of _ n]) simp
    qed
  qed
qed

lemma searchLoop_rounds:
  "fst (searchLoop s rnd lb ub bs) = Inr res \<Longrightarrow> r_rounds res \<le> MAX_ROUNDS"
  using searchLoop_found [of s rnd lb ub bs res] by auto

lemma findEvmHash_cases:
  assumes "findEvmHash env transfer = (Inr res, entries)"
  obtains evmDecimals expectedAmount d docs where
      "resolveEvmDecimals env (normalizeAddress (t_systemAddress transfer)) = Inr evmDecimals"
      "parseAmount env (t_amount transfer) evmDecimals = Some expectedAmount"
      "e_cacheDb env = Collection docs"
      "firstMin st_blockTimestamp (filter (matchFilter
          \<lparr> p_from = normalizeAddress (t_systemAddress transfer),
            p_assetRecipient = normalizeAddress (t_user transfer),
            p_amountWei = bigintToString expectedAmount,
            p_minTime = t_hypercoreTime transfer - 5000,
            p_maxTime = t_hypercoreTime transfer + DB_SEARCH_WINDOW_MS \<rparr>) docs) = Some d"
      "res = \<lparr> r_hash = st_hash d, r_explorerHash = st_explorerHash d,
               r_block = st_blockNumber d, r_blockHash = st_blockHash d,
               r_blockTime = st_blockTimestamp d, r_contractAddress = st_contractAddress d,
               r_blocksSearched = 0, r_rounds = 0 \<rparr>"
      "entries = []"
  | evmDecimals expectedAmount lb ub where
      "resolveEvmDecimals env (normalizeAddress (t_systemAddress transfer)) = Inr evmDecimals"
      "parseAmount env (t_amount transfer) evmDecimals = Some expectedAmount"
      "searchLoop \<lparr> s_fetchBlocks = e_fetchBlocks env,
                    s_user = normalizeAddress (t_user transfer),
                    s_systemAddress = normalizeAddress (t_systemAddress transfer),
                    s_expectedAmount = expectedAmount,
                    s_targetTime = t_hypercoreTime transfer \<rparr> 0 lb ub 0 = (Inr res, entries)"
  using assms
  unfolding findEvmHash_def Let_def findMatchingTx_def
  by (auto split: sum.splits option.splits collection.splits)

lemma findEvmHash_loop:
  "(\<exists>err. findEvmHash env transfer = (Inl err, []))
   \<or> (\<exists>res. findEvmHash env transfer = (Inr res, []) \<and> r_rounds res = 0)
   \<or> (\<exists>s lb ub. findEvmHash env transfer = searchLoop s 0 lb ub 0
         \<and> s_targetTime s = t_hypercoreTime transfer
         \<and> boundsInv (t_hypercoreTime transfer) lb ub)"
proof (cases "resolveEvmDecimals env (normalizeAddress (t_systemAddress transfer))")
  case (Inl msg)
  then show ?thesis by (simp add: findEvmHash_def)
next
  case (Inr evmDecimals)
  note dec = Inr
  show ?thesis
  proof (cases "parseAmount env (t_amount transfer) evmDecimals")
    case None
    with dec show ?thesis by (simp add: findEvmHash_def)
  next
    case (Some expectedAmount)
    note amt = Some
    let ?probe = "case findMatchingTx (e_cacheDb env)
                         \<lparr> p_from = normalizeAddress (t_systemAddress transfer),
                           p_assetRecipient = normalizeAddress (t_user transfer),
                           p_amountWei = bigintToString expectedAmount,
                           p_minTime = t_hypercoreTime transfer - 5000,
                           p_maxTime = t_hypercoreTime transfer + DB_SEARCH_WINDOW_MS \<rparr> of
                    Inl err \<Rightarrow> None | Inr found \<Rightarrow> found"
    show ?thesis
    proof (cases ?probe)
      case (Some d)
      with dec amt show ?thesis by (simp add: findEvmHash_def Let_def)
    next
      case None
      let ?anchors = "case findBracketingAnchors (e_anchorDb env) (t_hypercoreTime transfer) of
                        Inl err \<Rightarrow> (None, None) | Inr anchors \<Rightarrow> anchors"
      let ?lb = "case fst ?anchors of Some before \<Rightarrow> toAnchor before | None \<Rightarrow> SEED_ANCHOR"
      let ?ub = "map_option toAnchor (snd ?anchors)"
      let ?s = "\<lparr> s_fetchBlocks = e_fetchBlocks env,
                  s_user = normalizeAddress (t_user transfer),
                  s_systemAddress = normalizeAddress (t_systemAddress transfer),
                  s_expectedAmount = expectedAmount,
                  s_targetTime = t_hypercoreTime transfer \<rparr>"
      have "findEvmHash env transfer = searchLoop ?s 0 ?lb ?ub 0"
        using dec amt None by (simp add: findEvmHash_def Let_def)
      moreover have "boundsInv (t_hypercoreTime transfer) ?lb ?ub"
        by (rule bracketing_boundsInv)
      moreover have "s_targetTime ?s = t_hypercoreTime transfer" by simp
      ultimately show ?thesis by blast
    qed
  qed
qed

lemmas finder_eval =
  findEvmHash_def resolveEvmDecimals_def getAssetBySystemAddress_def parseAmount_def
  findMatchingTx_def matchFilter_def findBracketingAnchors_def toBlockAnchor_def toAnchor_def
  DB_SEARCH_WINDOW_MS_def SEED_ANCHOR_def searchLoop.simps searchRound_def MAX_ROUNDS_def
  BATCH_SIZE_def roundEstimate_def roundBatchStart_def roundBlockNumbers_def interpolate_def
  extrapolate_def DEFAULT_MS_PER_BLOCK_def newLowerBlock_def newUpperBlock_def tightenLower_def
  tightenUpper_def converged_def matchesTx_def Let_def upt_conv_Cons
  fl_eval

lemmas example_defs =
  exampleEnv_def exampleTransfer_def checksumCaseTransfer_def newTransferDoc_def
  exampleNewTransfer_def hypeSystemAddress_def cachedAnchor_def

subsection \<open>The match predicate of a result\<close>

text \<open>
  C1. Whenever \<^verbatim>\<open>findEvmHash\<close> succeeds, the amount it looked for is
  \<^verbatim>\<open>parseAmount(transfer.amount, evmDecimals)\<close>, and the result points either (cache hit,
  \<open>rounds = 0\<close>) at a stored anchor or (block search, \<open>rounds = round + 1\<close>) at a transaction
  of a block the fetcher returned in that round. The sender of that transaction equals the
  transfer's system address, its asset recipient equals the transfer's recipient, and its
  amount, read as a big integer, is the amount looked for. Addresses are hexadecimal
  strings and are compared in lower case: a stored anchor carries exactly the lowercased
  addresses of the transfer, a fetched transaction carries them up to letter case. The
  indexer stores transfers with lowercased addresses (\<^verbatim>\<open>processPage\<close>), so on stored transfers
  the comparison with a stored anchor is equality of the strings.
\<close>

theorem find_result_matches:
  assumes "findEvmHash env transfer = (Inr res, entries)"
  shows "\<exists>evmDecimals expectedAmount.
           resolveEvmDecimals env (normalizeAddress (t_systemAddress transfer)) = Inr evmDecimals
           \<and> parseAmount env (t_amount transfer) evmDecimals = Some expectedAmount
           \<and> ((\<exists>docs d. e_cacheDb env = Collection docs \<and> d \<in> set docs
                  \<and> r_rounds res = 0 \<and> resultOfDoc res d
                  \<and> st_from d = normalizeAddress (t_systemAddress transfer)
                  \<and> st_assetRecipient d = normalizeAddress (t_user transfer)
                  \<and> matchesUpToCase (st_from d) (st_assetRecipient d) (st_amountWei d)
                        transfer expectedAmount)
               \<or> (\<exists>rnd blockNumbers blocks block tx.
                    e_fetchBlocks env rnd blockNumbers = Inr blocks
                  \<and> block \<in> set blocks \<and> tx \<in> set (b_systemTxs block)
                  \<and> r_rounds res = rnd + 1 \<and> resultOfTx res block tx
                  \<and> matchesUpToCase (tx_from tx) (tx_assetRecipient tx) (tx_amountWei tx)
                        transfer expectedAmount))"
  using assms
proof (cases rule: findEvmHash_cases)
  case (1 evmDecimals expectedAmount d docs)
  let ?params = "\<lparr> p_from = normalizeAddress (t_systemAddress transfer),
            p_assetRecipient = normalizeAddress (t_user transfer),
            p_amountWei = bigintToString expectedAmount,
            p_minTime = t_hypercoreTime transfer - 5000,
            p_maxTime = t_hypercoreTime transfer + DB_SEARCH_WINDOW_MS \<rparr>"
  from firstMin_Some [OF 1(4)] have d: "d \<in> set docs" "matchFilter ?params d" by simp_all
  from d(2) have "matchesUpToCase (st_from d) (st_assetRecipient d) (st_amountWei d)
      transfer expectedAmount"
    by (simp add: matchFilter_def matchesUpToCase_def toLowerCase_idem BigInt_bigintToString)
  moreover from d(2) have "st_from d = normalizeAddress (t_systemAddress transfer)"
    "st_assetRecipient d = normalizeAddress (t_user transfer)"
    by (simp_all add: matchFilter_def normalizeAddress_def toLowerCase_idem)
  moreover have "resultOfDoc res d" "r_rounds res = 0" using 1(5) by (simp_all add: resultOfDoc_def)
  ultimately show ?thesis using 1(1,2,3) d(1) by blast
next
  case (2 evmDecimals expectedAmount lb ub)
  let ?s = "\<lparr> s_fetchBlocks = e_fetchBlocks env,
                    s_user = normalizeAddress (t_user transfer),
                    s_systemAddress = normalizeAddress (t_systemAddress transfer),
                    s_expectedAmount = expectedAmount,
                    s_targetTime = t_hypercoreTime transfer \<rparr>"
  from 2(3) have "fst (searchLoop ?s 0 lb ub 0) = Inr res" by simp
  from searchLoop_found [OF this] obtain r nums blocks block tx n where
    f: "e_fetchBlocks env r nums = Inr blocks"
    and sb: "searchBlocks blocks (normalizeAddress (t_user transfer))
               (normalizeAddress (t_systemAddress transfer)) expectedAmount = Inr (Some (block, tx))"
    and res: "res = \<lparr> r_hash = tx_hash tx, r_explorerHash = tx_explorerHash tx,
                   r_block = b_number block, r_blockHash = b_hash block,
                   r_blockTime = b_timestamp block, r_contractAddress = tx_contractAddress tx,
                   r_blocksSearched = n, r_rounds = r + 1 \<rparr>"
    by auto
  from searchBlocks_sound [OF sb] have m: "block \<in> set blocks" "tx \<in> set (b_systemTxs block)"
    "matchesTx tx (normalizeAddress (t_user transfer))
       (normalizeAddress (t_systemAddress transfer)) expectedAmount = Inr True"
    by simp_all
  from m(3) have "matchesUpToCase (tx_from tx) (tx_assetRecipient tx) (tx_amountWei tx)
      transfer expectedAmount"
    by (auto simp: matchesTx_True matchesUpToCase_def normalizeAddress_def toLowerCase_idem)
  moreover have "resultOfTx res block tx" "r_rounds res = r + 1"
    using res by (simp_all add: resultOfTx_def)
  ultimately show ?thesis using 2(1,2) f m(1,2) by blast
qed

lemma s2_run:
  "findEvmHash s2Env s2Transfer
     = (Inr \<lparr> r_hash = ''0xa002'', r_explorerHash = ''0xe002'', r_block = 1500,
               r_blockHash = ''0xb'', r_blockTime = 1700000500000, r_contractAddress = None,
               r_blocksSearched = 5, r_rounds = 1 \<rparr>,
        [\<lparr> l_round = 0, l_estimate = 1500, l_blockNumbers = [1498, 1499, 1500, 1501, 1502],
           l_lowerBound = \<lparr> a_block = 1000, a_time = 1700000000000 \<rparr>,
           l_upperBound = Some \<lparr> a_block = 2000, a_time = 1700001000000 \<rparr> \<rparr>])"
  by (simp add: finder_eval js_eval example_defs s2Env_def s2Transfer_def s2Fetcher_def s2Tx_def
        anchorAt_def)

theorem find_result_matches_witness:
  "findEvmHash s2Env s2Transfer
     = (Inr \<lparr> r_hash = ''0xa002'', r_explorerHash = ''0xe002'', r_block = 1500,
               r_blockHash = ''0xb'', r_blockTime = 1700000500000, r_contractAddress = None,
               r_blocksSearched = 5, r_rounds = 1 \<rparr>,
        [\<lparr> l_round = 0, l_estimate = 1500, l_blockNumbers = [1498, 1499, 1500, 1501, 1502],
           l_lowerBound = \<lparr> a_block = 1000, a_time = 1700000000000 \<rparr>,
           l_upperBound = Some \<lparr> a_block = 2000, a_time = 1700001000000 \<rparr> \<rparr>])
   \<and> (\<exists>evmDecimals expectedAmount.
           resolveEvmDecimals s2Env (normalizeAddress (t_systemAddress s2Transfer)) = Inr evmDecimals
           \<and> parseAmount s2Env (t_amount s2Transfer) evmDecimals = Some expectedAmount
           \<and> ((\<exists>docs d. e_cacheDb s2Env = Collection docs \<and> d \<in> set docs
                  \<and> r_rounds \<lparr> r_hash = ''0xa002'', r_explorerHash = ''0xe002'', r_block = 1500,
               r_blockHash = ''0xb'', r_blockTime = 1700000500000, r_contractAddress = None,
               r_blocksSearched = 5, r_rounds = 1 \<rparr> = 0)
               \<or> (\<exists>rnd blockNumbers blocks block tx.
                    e_fetchBlocks s2Env rnd blockNumbers = Inr blocks
                  \<and> block \<in> set blocks \<and> tx \<in> set (b_systemTxs block)
                  \<and> tx_hash tx = ''0xa002''
                  \<and> matchesUpToCase (tx_from tx) (tx_assetRecipient tx) (tx_amountWei tx)
                        s2Transfer expectedAmount)))"
proof -
  note run = s2_run
  from find_result_matches [OF run] obtain evmDecimals expectedAmount where
    1: "resolveEvmDecimals s2Env (normalizeAddress (t_systemAddress s2Transfer)) = Inr evmDecimals"
       "parseAmount s2Env (t_amount s2Transfer) evmDecimals = Some expectedAmount"
    and 2: "(\<exists>docs d. e_cacheDb s2Env = Collection docs \<and> d \<in> set docs
                  \<and> r_rounds \<lparr> r_hash = ''0xa002'', r_explorerHash = ''0xe002'', r_block = 1500,
               r_blockHash = ''0xb'', r_blockTime = 1700000500000, r_contractAddress = None,
               r_blocksSearched = 5, r_rounds = 1 \<rparr> = 0)
            \<or> (\<exists>rnd blockNumbers blocks block tx.
                    e_fetchBlocks s2Env rnd blockNumbers = Inr blocks
                  \<and> block \<in> set blocks \<and> tx \<in> set (b_systemTxs block)
                  \<and> tx_hash tx = ''0xa002''
                  \<and> matchesUpToCase (tx_from tx) (tx_assetRecipient tx) (tx_amountWei tx)
                        s2Transfer expectedAmount)"
    by (fastforce simp: resultOfTx_def)
  show ?thesis using run 1 2 by blast
qed

subsection \<open>The cache probe\<close>

text \<open>
  C2. Let the decimals resolve and the amount parse, and let the anchor store answer and
  hold a document whose sender and recipient are the transfer's system address and
  recipient (lowercased), whose amount is the decimal string of the expected amount, and
  whose block time lies in \<open>[coreTime - 5000, coreTime + 120000]\<close>. Then \<^verbatim>\<open>findEvmHash\<close>
  returns such a document (the earliest in the window), with \<open>rounds = 0\<close> and
  \<open>blocksSearched = 0\<close>, no round is logged, and the result is the same whatever the
  fetcher is: the fetcher is not invoked.
\<close>

theorem cache_hit_returns_anchor:
  assumes dec: "resolveEvmDecimals env (normalizeAddress (t_systemAddress transfer)) = Inr evmDecimals"
    and amt: "parseAmount env (t_amount transfer) evmDecimals = Some expectedAmount"
    and db: "e_cacheDb env = Collection docs"
    and d: "d \<in> set docs"
    and m: "st_from d = toLowerCase (t_systemAddress transfer)"
           "st_assetRecipient d = toLowerCase (t_user transfer)"
           "st_amountWei d = bigintToString expectedAmount"
    and w: "t_hypercoreTime transfer - 5000 \<le> st_blockTimestamp d"
           "st_blockTimestamp d \<le> t_hypercoreTime transfer + 120000"
  shows "\<exists>a. a \<in> set docs
           \<and> st_from a = toLowerCase (t_systemAddress transfer)
           \<and> st_assetRecipient a = toLowerCase (t_user transfer)
           \<and> st_amountWei a = bigintToString expectedAmount
           \<and> t_hypercoreTime transfer - 5000 \<le> st_blockTimestamp a
           \<and> st_blockTimestamp a \<le> st_blockTimestamp d
           \<and> (\<forall>fetcher. findEvmHash (env \<lparr> e_fetchBlocks := fetcher \<rparr>) transfer
                 = (Inr \<lparr> r_hash = st_hash a, r_explorerHash = st_explorerHash a,
                           r_block = st_blockNumber a, r_blockHash = st_blockHash a,
                           r_blockTime = st_blockTimestamp a,
                           r_contractAddress = st_contractAddress a,
                           r_blocksSearched = 0, r_rounds = 0 \<rparr>, []))"
proof -
  let ?params = "\<lparr> p_from = normalizeAddress (t_systemAddress transfer),
            p_assetRecipient = normalizeAddress (t_user transfer),
            p_amountWei = bigintToString expectedAmount,
            p_minTime = t_hypercoreTime transfer - 5000,
            p_maxTime = t_hypercoreTime transfer + DB_SEARCH_WINDOW_MS \<rparr>"
  have md: "matchFilter ?params d"
    using m w by (simp add: matchFilter_def DB_SEARCH_WINDOW_MS_def)
  then have "filter (matchFilter ?params) docs \<noteq> []" using d by (auto simp: filter_empty_conv)
  then obtain a where a: "firstMin st_blockTimestamp (filter (matchFilter ?params) docs) = Some a"
    using firstMin_None [of st_blockTimestamp "filter (matchFilter ?params) docs"] by auto
  from firstMin_Some [OF a] have a1: "a \<in> set docs" "matchFilter ?params a"
    and a2: "st_blockTimestamp a \<le> st_blockTimestamp d"
    using d md by auto
  have "\<And>fetcher. findEvmHash (env \<lparr> e_fetchBlocks := fetcher \<rparr>) transfer
                 = (Inr \<lparr> r_hash = st_hash a, r_explorerHash = st_explorerHash a,
                           r_block = st_blockNumber a, r_blockHash = st_blockHash a,
                           r_blockTime = st_blockTimestamp a,
                           r_contractAddress = st_contractAddress a,
                           r_blocksSearched = 0, r_rounds = 0 \<rparr>, [])"
  proof -
    fix fetcher
    let ?env = "env \<lparr> e_fetchBlocks := fetcher \<rparr>"
    have "resolveEvmDecimals ?env (normalizeAddress (t_systemAddress transfer)) = Inr evmDecimals"
      using dec by (simp add: resolveEvmDecimals_def split: option.splits)
    moreover have "parseAmount ?env (t_amount transfer) evmDecimals = Some expectedAmount"
      using amt by (simp add: parseAmount_def)
    moreover have "e_cacheDb ?env = Collection docs" using db by simp
    ultimately show "findEvmHash ?env transfer
                 = (Inr \<lparr> r_hash = st_hash a, r_explorerHash = st_explorerHash a,
                           r_block = st_blockNumber a, r_blockHash = st_blockHash a,
                           r_blockTime = st_blockTimestamp a,
                           r_contractAddress = st_contractAddress a,
                           r_blocksSearched = 0, r_rounds = 0 \<rparr>, [])"
      using a by (simp add: findEvmHash_def findMatchingTx_def Let_def)
  qed
  with a1 a2 show ?thesis
    by (intro exI [of _ a]) (simp add: matchFilter_def toLowerCase_idem)
qed

theorem cache_hit_returns_anchor_witness:
  "findEvmHash exampleEnv exampleTransfer
     = (Inr \<lparr> r_hash = ''0xa001'', r_explorerHash = ''0xe001'', r_block = 1500,
               r_blockHash = ''0xb1500'', r_blockTime = 1700000000000, r_contractAddress = None,
               r_blocksSearched = 0, r_rounds = 0 \<rparr>, [])"
proof -
  have dec: "resolveEvmDecimals exampleEnv (normalizeAddress (t_systemAddress exampleTransfer)) = Inr 18"
    by (simp add: resolveEvmDecimals_def getAssetBySystemAddress_def js_eval example_defs)
  have amt: "parseAmount exampleEnv (t_amount exampleTransfer) 18 = Some 100500000000000000000"
    by (simp add: parseAmount_def example_defs)
  have db: "e_cacheDb exampleEnv = Collection [cachedAnchor]" by (simp add: exampleEnv_def)
  have m: "st_from cachedAnchor = toLowerCase (t_systemAddress exampleTransfer)"
    "st_assetRecipient cachedAnchor = toLowerCase (t_user exampleTransfer)"
    "st_amountWei cachedAnchor = bigintToString 100500000000000000000"
    "t_hypercoreTime exampleTransfer - 5000 \<le> st_blockTimestamp cachedAnchor"
    "st_blockTimestamp cachedAnchor \<le> t_hypercoreTime exampleTransfer + 120000"
    by (simp_all add: js_eval example_defs)
  from cache_hit_returns_anchor [OF dec amt db _ m]
  obtain a where a: "a \<in> set [cachedAnchor]"
    and run: "\<forall>fetcher. findEvmHash (exampleEnv \<lparr> e_fetchBlocks := fetcher \<rparr>) exampleTransfer
                 = (Inr \<lparr> r_hash = st_hash a, r_explorerHash = st_explorerHash a,
                           r_block = st_blockNumber a, r_blockHash = st_blockHash a,
                           r_blockTime = st_blockTimestamp a,
                           r_contractAddress = st_contractAddress a,
                           r_blocksSearched = 0, r_rounds = 0 \<rparr>, [])"
    by auto
  from a have "a = cachedAnchor" by simp
  with run [rule_format, of "e_fetchBlocks exampleEnv"]
  have "findEvmHash exampleEnv exampleTransfer
                 = (Inr \<lparr> r_hash = st_hash cachedAnchor, r_explorerHash = st_explorerHash cachedAnchor,
                           r_block = st_blockNumber cachedAnchor, r_blockHash = st_blockHash cachedAnchor,
                           r_blockTime = st_blockTimestamp cachedAnchor,
                           r_contractAddress = st_contractAddress cachedAnchor,
                           r_blocksSearched = 0, r_rounds = 0 \<rparr>, [])"
    by simp
  then show ?thesis by (simp add: cachedAnchor_def)
qed

subsection \<open>Bounded rounds and converged bounds\<close>

lemma converged_tighten:
  "converged lb ub \<Longrightarrow> converged (tightenLower lb c1) (tightenUpper ub c2)"
  by (auto simp: converged_def tightenLower_def tightenUpper_def split: option.splits)

lemma searchRound_converged:
  assumes "converged lb ub" "answersWithoutMatch s"
  shows "(\<exists>n. fst (searchRound s rnd lb ub bs) = Done (Inl (NotFoundError n)))
         \<or> (\<exists>n. fst (searchRound s rnd lb ub bs) = Continue lb ub n)"
proof -
  let ?nums = "roundBlockNumbers ub (roundBatchStart lb ub (roundEstimate lb ub (s_targetTime s)))"
  obtain blocks where b: "s_fetchBlocks s rnd ?nums = Inr blocks"
    "searchBlocks blocks (s_user s) (s_systemAddress s) (s_expectedAmount s) = Inr None"
    using assms(2) unfolding answersWithoutMatch_def by blast
  show ?thesis
    using b converged_tighten [OF assms(1)]
    by (simp add: searchRound_def Let_def)
qed

lemma searchLoop_converged:
  "converged lb ub \<Longrightarrow> answersWithoutMatch s \<Longrightarrow>
     \<exists>n. fst (searchLoop s rnd lb ub bs) = Inl (NotFoundError n)"
proof (induction s rnd lb ub bs rule: searchLoop.induct)
  case (1 s rnd lb ub bs)
  show ?case
  proof (cases "rnd < MAX_ROUNDS")
    case False
    then show ?thesis by (simp add: searchLoop.simps)
  next
    case True
    obtain step entries where r: "searchRound s rnd lb ub bs = (step, entries)"
      by (cases "searchRound s rnd lb ub bs")
    from searchRound_converged [OF "1.prems", of rnd bs] r
    consider n where "step = Done (Inl (NotFoundError n))" | n where "step = Continue lb ub n"
      by auto
    then show ?thesis
    proof cases
      case 1
      with True r show ?thesis by (simp add: searchLoop.simps [of s rnd])
    next
      case 2
      from "1.IH" [of step entries lb ub n] True r 2 "1.prems"
      obtain m where "fst (searchLoop s (Suc rnd) lb ub n) = Inl (NotFoundError m)" by auto
      with True r 2 show ?thesis
        by (cases "searchLoop s (Suc rnd) lb ub n") (simp add: searchLoop.simps [of s rnd])
    qed
  qed
qed

lemma searchLoop_converged_round:
  assumes "rnd < MAX_ROUNDS"
    and "roundBlockNumbers ub (roundBatchStart lb ub (roundEstimate lb ub (s_targetTime s))) \<noteq> []"
    and "s_fetchBlocks s rnd
           (roundBlockNumbers ub (roundBatchStart lb ub (roundEstimate lb ub (s_targetTime s))))
         = Inr blocks"
    and "blocks \<noteq> []"
    and "searchBlocks blocks (s_user s) (s_systemAddress s) (s_expectedAmount s) = Inr None"
    and "converged (tightenLower lb (newLowerBlock (s_targetTime s) blocks))
           (tightenUpper ub (newUpperBlock (s_targetTime s) blocks))"
  shows "fst (searchLoop s rnd lb ub bs) = Inl (NotFoundError (bs + length blocks))
         \<and> length (snd (searchLoop s rnd lb ub bs)) = 1"
  using assms by (simp add: searchLoop.simps [of s rnd] searchRound_def Let_def)

text \<open>
  C3. The loop of \<^verbatim>\<open>findEvmHash\<close> runs at most \<open>MAX_ROUNDS = 20\<close> rounds: every call logs
  at most 20 fetches, a result reports at most 20 rounds, and from round \<open>rnd\<close> on at most
  \<open>MAX_ROUNDS - rnd\<close> fetches follow. Whenever a round starts with bounds such that
  \<open>upper \<le> lower + 1\<close> and the fetcher answers without a match, the search ends with
  \<^verbatim>\<open>NotFoundError\<close> (an empty answer only leads to the next round, with the same bounds).
  And in the round in which a non-empty answer without a match leaves tightened bounds
  with \<open>upper \<le> lower + 1\<close>, the search ends at once with \<^verbatim>\<open>NotFoundError\<close>.
\<close>

theorem search_stops_within_MAX_ROUNDS:
  "MAX_ROUNDS = 20
   \<and> length (snd (findEvmHash env transfer)) \<le> MAX_ROUNDS
   \<and> (\<forall>res. fst (findEvmHash env transfer) = Inr res \<longrightarrow> r_rounds res \<le> MAX_ROUNDS)
   \<and> length (snd (searchLoop s rnd lb ub bs)) \<le> MAX_ROUNDS - rnd
   \<and> (converged lb ub \<and> answersWithoutMatch s \<longrightarrow>
        (\<exists>n. fst (searchLoop s rnd lb ub bs) = Inl (NotFoundError n)))
   \<and> (rnd < MAX_ROUNDS
        \<and> roundBlockNumbers ub (roundBatchStart lb ub (roundEstimate lb ub (s_targetTime s))) \<noteq> []
        \<and> s_fetchBlocks s rnd
             (roundBlockNumbers ub (roundBatchStart lb ub (roundEstimate lb ub (s_targetTime s))))
           = Inr blocks
        \<and> blocks \<noteq> []
        \<and> searchBlocks blocks (s_user s) (s_systemAddress s) (s_expectedAmount s) = Inr None
        \<and> converged (tightenLower lb (newLowerBlock (s_targetTime s) blocks))
             (tightenUpper ub (newUpperBlock (s_targetTime s) blocks))
        \<longrightarrow> fst (searchLoop s rnd lb ub bs) = Inl (NotFoundError (bs + length blocks))
            \<and> length (snd (searchLoop s rnd lb ub bs)) = 1)"
proof -
  from findEvmHash_loop [of env transfer]
  consider err where "findEvmHash env transfer = (Inl err, [])"
    | r where "findEvmHash env transfer = (Inr r, [])" "r_rounds r = 0"
    | s' lb' ub' where "findEvmHash env transfer = searchLoop s' 0 lb' ub' 0"
    by blast
  then have both: "length (snd (findEvmHash env transfer)) \<le> MAX_ROUNDS
      \<and> (\<forall>res. fst (findEvmHash env transfer) = Inr res \<longrightarrow> r_rounds res \<le> MAX_ROUNDS)"
  proof cases
    case 1
    then show ?thesis by simp
  next
    case 2
    then show ?thesis by simp
  next
    case 3
    then show ?thesis
      using searchLoop_log_length [of s' 0 lb' ub' 0] searchLoop_rounds [of s' 0 lb' ub' 0]
      by simp
  qed
  then have len: "length (snd (findEvmHash env transfer)) \<le> MAX_ROUNDS"
    and rounds: "\<forall>res. fst (findEvmHash env transfer) = Inr res \<longrightarrow> r_rounds res \<le> MAX_ROUNDS"
    by simp_all
  show ?thesis
    using len rounds searchLoop_log_length [of s rnd lb ub bs]
      searchLoop_converged [of lb ub s rnd bs]
      searchLoop_converged_round [of rnd ub lb s blocks bs]
    by (simp add: MAX_ROUNDS_def)
qed

lemma answersWithoutMatch_adjacentSearch: "answersWithoutMatch adjacentSearch"
  unfolding answersWithoutMatch_def
  by (auto simp: adjacentSearch_def emptyChain_def intro!: searchBlocks_no_txs)

theorem search_stops_within_MAX_ROUNDS_witness:
  "converged \<lparr> a_block = 1000, a_time = 1700000000000 \<rparr>
      (Some \<lparr> a_block = 1001, a_time = 1700000001000 \<rparr>)
   \<and> answersWithoutMatch adjacentSearch
   \<and> (\<exists>n. fst (searchLoop adjacentSearch 0 \<lparr> a_block = 1000, a_time = 1700000000000 \<rparr>
                 (Some \<lparr> a_block = 1001, a_time = 1700000001000 \<rparr>) 0) = Inl (NotFoundError n))
   \<and> length (snd (searchLoop adjacentSearch 0 \<lparr> a_block = 1000, a_time = 1700000000000 \<rparr>
                 (Some \<lparr> a_block = 1001, a_time = 1700000001000 \<rparr>) 0)) \<le> 20"
  using search_stops_within_MAX_ROUNDS
          [of _ _ adjacentSearch 0 "\<lparr> a_block = 1000, a_time = 1700000000000 \<rparr>"
              "Some \<lparr> a_block = 1001, a_time = 1700000001000 \<rparr>" 0]
        answersWithoutMatch_adjacentSearch
  by (simp add: converged_def)

subsection \<open>The estimate of a round\<close>








lemma roundEstimate_no_interval:
  assumes "a_time u = a_time lb \<or> a_block u = a_block lb"
  shows "roundEstimate lb (Some u) t = a_block lb"
proof -
  have "interpolate lb u t = a_block lb" using assms by (auto simp: interpolate_def)
  then show ?thesis by (simp add: roundEstimate_def)
qed

text \<open>
  Inside \<^verbatim>\<open>findEvmHash\<close> the bounds keep the invariant above, and two anchors with the same
  time stamp are then the seed and an anchor stored at the seed's time, with the target
  before both: the lower anchor's block is 1, which is also what extrapolation from the
  seed gives for an earlier target.
\<close>

lemma roundEstimate_equal_times:
  assumes "boundsInv t lb (Some u)" "a_time u = a_time lb"
  shows "roundEstimate lb (Some u) t = 1 \<and> extrapolate lb t = 1"
proof -
  from assms have seed: "lb = SEED_ANCHOR" and before: "t < a_time lb"
    by (auto simp: boundsInv_def)
  have est: "roundEstimate lb (Some u) t = 1"
    using roundEstimate_no_interval [of u lb t] assms(2) seed by (simp add: SEED_ANCHOR_def)
  have "real_of_int (t - a_time lb) / real_of_int DEFAULT_MS_PER_BLOCK \<le> 0"
    using before by (simp add: DEFAULT_MS_PER_BLOCK_def)
  then have "fl (real_of_int (t - a_time lb) / real_of_int DEFAULT_MS_PER_BLOCK) \<le> 0"
    by (rule fl_nonpos)
  then have "js_round (fl (real_of_int (t - a_time lb) / real_of_int DEFAULT_MS_PER_BLOCK)) \<le> 0"
    by (rule js_round_nonpos)
  then have "extrapolate lb t = 1"
    using seed by (simp add: extrapolate_def Let_def SEED_ANCHOR_def)
  with est show ?thesis by simp
qed






subsection \<open>Letter case of addresses\<close>

lemma findEvmHash_case_independent:
  assumes "toLowerCase usr' = toLowerCase (t_user transfer)"
    and "toLowerCase sys' = toLowerCase (t_systemAddress transfer)"
  shows "findEvmHash env (transfer \<lparr> t_user := usr', t_systemAddress := sys' \<rparr>)
           = findEvmHash env transfer"
  using assms
  by (simp add: findEvmHash_def normalizeAddress_def Let_def
        cong: sum.case_cong option.case_cong)

text \<open>
  C10. The documents \<^verbatim>\<open>storeBlocksSystemTxs\<close> builds carry lowercased \<^verbatim>\<open>from\<close>,
  \<^verbatim>\<open>assetRecipient\<close> and \<^verbatim>\<open>contractAddress\<close>, and every document it adds to the anchor store
  is one of them; \<^verbatim>\<open>findMatchingTx\<close> answers the same for its parameters and for their
  lowercased form; \<^verbatim>\<open>matchesTx\<close> answers the same for a transaction and for its lowercased
  form; and \<^verbatim>\<open>findEvmHash\<close> has the same outcome for two transfers that differ only in the
  letter case of the recipient and of the system address.
\<close>

theorem addresses_compared_in_lower_case:
  "(\<forall>d \<in> set (blockDocs block). lowercasedDoc d)
   \<and> (storeBlocksSystemTxs (Collection docs) blocks = Inr (Collection docs') \<longrightarrow>
        (\<forall>d \<in> set docs'. d \<in> set docs \<or> lowercasedDoc d))
   \<and> findMatchingTx col params
       = findMatchingTx col (params \<lparr> p_from := toLowerCase (p_from params),
                                      p_assetRecipient := toLowerCase (p_assetRecipient params) \<rparr>)
   \<and> matchesTx tx usr sys amt
       = matchesTx (tx \<lparr> tx_from := toLowerCase (tx_from tx),
                          tx_assetRecipient := toLowerCase (tx_assetRecipient tx) \<rparr>) usr sys amt
   \<and> (toLowerCase usr' = toLowerCase (t_user transfer)
        \<and> toLowerCase sys' = toLowerCase (t_systemAddress transfer) \<longrightarrow>
        findEvmHash env (transfer \<lparr> t_user := usr', t_systemAddress := sys' \<rparr>)
          = findEvmHash env transfer)"
  using blockDocs_lowercased [of _ block] storeBlocksSystemTxs_new_docs [of docs blocks docs']
    findMatchingTx_lowercases [of col params] matchesTx_lowercases [of tx usr sys amt]
    findEvmHash_case_independent [of usr' transfer sys' env]
  by blast

theorem addresses_compared_in_lower_case_witness:
  "findEvmHash exampleEnv checksumCaseTransfer = findEvmHash exampleEnv exampleTransfer
   \<and> storeBlocksSystemTxs (Collection []) [checksumCaseBlock]
       = Inr (Collection
           [\<lparr> st_hash = ''0xa003'', st_explorerHash = ''0xe003'', st_blockNumber = 1500,
              st_blockHash = ''0xb1500'', st_blockTimestamp = 1700000500000,
              st_from = ''0x20000000000000000000000000000000000000de'',
              st_assetRecipient = ''0x00000000000000000000000000000000000000aa'',
              st_amountWei = ''10827401816'',
              st_contractAddress = Some ''0x00000000000000000000000000000000000000cc'' \<rparr>])
   \<and> lowercasedDoc
        \<lparr> st_hash = ''0xa003'', st_explorerHash = ''0xe003'', st_blockNumber = 1500,
          st_blockHash = ''0xb1500'', st_blockTimestamp = 1700000500000,
          st_from = ''0x20000000000000000000000000000000000000de'',
          st_assetRecipient = ''0x00000000000000000000000000000000000000aa'',
          st_amountWei = ''10827401816'',
          st_contractAddress = Some ''0x00000000000000000000000000000000000000cc'' \<rparr>"
proof -
  let ?doc = "\<lparr> st_hash = ''0xa003'', st_explorerHash = ''0xe003'', st_blockNumber = 1500,
          st_blockHash = ''0xb1500'', st_blockTimestamp = 1700000500000,
          st_from = ''0x20000000000000000000000000000000000000de'',
          st_assetRecipient = ''0x00000000000000000000000000000000000000aa'',
          st_amountWei = ''10827401816'',
          st_contractAddress = Some ''0x00000000000000000000000000000000000000cc'' \<rparr>"
  note claim = addresses_compared_in_lower_case
      [of checksumCaseBlock "[]" "[checksumCaseBlock]" "[?doc]" _ _ _ _ _ _
          "''0x00000000000000000000000000000000000000Aa''" exampleTransfer
          "t_systemAddress exampleTransfer" exampleEnv]
  have store: "storeBlocksSystemTxs (Collection []) [checksumCaseBlock] = Inr (Collection [?doc])"
    by (simp add: storeBlocksSystemTxs_def blockDocs_def checksumCaseBlock_def js_eval
          validSystemTransaction_def requiredString_def)
  have lower: "toLowerCase ''0x00000000000000000000000000000000000000Aa''
                = toLowerCase (t_user exampleTransfer)"
    by (simp add: js_eval example_defs)
  from claim store have "lowercasedDoc ?doc" by simp
  moreover from claim lower
  have "findEvmHash exampleEnv
          (exampleTransfer \<lparr> t_user := ''0x00000000000000000000000000000000000000Aa'',
                             t_systemAddress := t_systemAddress exampleTransfer \<rparr>)
        = findEvmHash exampleEnv exampleTransfer"
    by blast
  then have "findEvmHash exampleEnv checksumCaseTransfer = findEvmHash exampleEnv exampleTransfer"
    by (simp add: checksumCaseTransfer_def)
  ultimately show ?thesis using store by simp
qed

end
